theory Spec2Isabelle
  imports Complex_Main
begin

section \<open>JavaScript values used by the chat client\<close>

text \<open>
  The client is \<^verbatim>\<open>src/static/js/chat.js\<close> (the second, complete script of that file,
  lines 235 to 846). Strings are lists of code units; the HOL type \<open>char\<close> holds the
  code units below 256, which covers every literal of the script but the two star
  glyphs, modelled by a datatype of their own.

  Numbers: a JavaScript number is an IEEE double: \<open>NaN\<close>, one of the two infinities,
  or a finite value, held here as the exact rational it stands for. The two zeros are
  one value \<open>Num 0\<close>: the script never tells them apart (both are falsy, both print
  without a sign, and the only division of the script runs behind the test
  \<^verbatim>\<open>original > 0\<close>).
\<close>

datatype jsnum = NaN | PosInf | NegInf | Num rat

section \<open>Rounding to the nearest double\<close>

text \<open>
  Every arithmetic operation of the script returns the double nearest to the exact
  result, ties going to the even significand. The binary exponent of a positive
  rational \<open>q\<close> is the \<open>e\<close> with \<open>2^e \<le> q < 2^(e+1)\<close>, found by counting up from 0 when
  \<open>1 \<le> q\<close> and down from -1 otherwise.
\<close>

function exp_up :: "rat \<Rightarrow> nat \<Rightarrow> int" where
  "exp_up q k = (if q < 2 ^ (k + 1) then int k else exp_up q (k + 1))"
  by pat_completeness auto
termination
proof (relation "measure (\<lambda>(q, k). nat \<lceil>q\<rceil> - k)")
  show "wf (measure (\<lambda>(q, k). nat \<lceil>q\<rceil> - k))" by simp
next
  fix q :: rat and k :: nat
  assume "\<not> q < 2 ^ (k + 1)"
  then have "(2::rat) ^ (k + 1) \<le> q" by simp
  moreover have "of_nat (k + 1) < (2::rat) ^ (k + 1)" by (rule of_nat_less_two_power)
  ultimately have "of_nat (k + 1) < q" by linarith
  then have "int (k + 1) < \<lceil>q\<rceil>" by (simp add: less_ceiling_iff)
  then show "((q, k + 1), (q, k)) \<in> measure (\<lambda>(q, k). nat \<lceil>q\<rceil> - k)" by simp
qed

function exp_down :: "rat \<Rightarrow> nat \<Rightarrow> int" where
  "exp_down q k = (if q \<le> 0 \<or> 1 \<le> q * 2 ^ k then - int k else exp_down q (k + 1))"
  by pat_completeness auto
termination
proof (relation "measure (\<lambda>(q, k). nat \<lceil>1 / q\<rceil> - k)")
  show "wf (measure (\<lambda>(q, k). nat \<lceil>1 / q\<rceil> - k))" by simp
next
  fix q :: rat and k :: nat
  assume "\<not> (q \<le> 0 \<or> 1 \<le> q * 2 ^ k)"
  then have pos: "0 < q" and lt: "q * 2 ^ k < 1" by simp_all
  from pos lt have "(2::rat) ^ k < 1 / q" by (simp add: less_divide_eq mult.commute)
  moreover have "of_nat k < (2::rat) ^ k" by (rule of_nat_less_two_power)
  ultimately have "of_nat k < 1 / q" by linarith
  then have "int k < \<lceil>1 / q\<rceil>" by (simp add: less_ceiling_iff)
  then show "((q, k + 1), (q, k)) \<in> measure (\<lambda>(q, k). nat \<lceil>1 / q\<rceil> - k)" by simp
qed

definition exponent :: "rat \<Rightarrow> int" where
  "exponent q = (if 1 \<le> q then exp_up q 0 else exp_down q 1)"

text \<open>The nearest integer, the even one on a tie.\<close>

definition round_half_even :: "rat \<Rightarrow> int" where
  "round_half_even t =
     (let f = \<lfloor>t\<rfloor>; d = t - of_int f in
      if d < 1 / 2 then f else if 1 / 2 < d then f + 1 else if even f then f else f + 1)"

text \<open>
  \<open>rnd q\<close> is the double nearest to \<open>q\<close>. A double has a significand of 53 bits, so
  the doubles around a magnitude of exponent \<open>e\<close> are the multiples of \<open>2^(e - 52)\<close>;
  below \<open>2^(-1022)\<close> the spacing stays \<open>2^(-1074)\<close> (the subnormal range, where a
  magnitude can round to zero), and a magnitude that rounds to \<open>2^1024\<close> or more is the
  infinity of its sign.
\<close>

definition rnd :: "rat \<Rightarrow> jsnum" where
  "rnd q =
     (if q = 0 then Num 0
      else
        (let a = \<bar>q\<bar>;
             e = max (exponent a) (- 1022);
             u = 2 powi (e - 52);
             r = of_int (round_half_even (a / u)) * u
         in if 2 ^ 1024 \<le> r then (if q < 0 then NegInf else PosInf)
            else Num (if q < 0 then - r else r)))"

text \<open>The comparison \<^verbatim>\<open>a < b\<close>, false as soon as one side is \<open>NaN\<close>.\<close>

fun js_less :: "jsnum \<Rightarrow> jsnum \<Rightarrow> bool" where
  "js_less (Num a) (Num b) = (a < b)"
| "js_less (Num a) PosInf = True"
| "js_less NegInf (Num b) = True"
| "js_less NegInf PosInf = True"
| "js_less _ _ = False"

text \<open>
  Division, subtraction and multiplication of doubles. A finite dividend over zero is
  taken over the positive zero (the divisor of the script has passed
  \<^verbatim>\<open>original > 0\<close> and is never zero).
\<close>

fun js_div :: "jsnum \<Rightarrow> jsnum \<Rightarrow> jsnum" where
  "js_div (Num a) (Num b) =
     (if b = 0 then (if a = 0 then NaN else if 0 < a then PosInf else NegInf)
      else rnd (a / b))"
| "js_div (Num a) PosInf = Num 0"
| "js_div (Num a) NegInf = Num 0"
| "js_div PosInf (Num b) = (if 0 \<le> b then PosInf else NegInf)"
| "js_div NegInf (Num b) = (if 0 \<le> b then NegInf else PosInf)"
| "js_div _ _ = NaN"

fun js_sub :: "jsnum \<Rightarrow> jsnum \<Rightarrow> jsnum" where
  "js_sub (Num a) (Num b) = rnd (a - b)"
| "js_sub (Num a) PosInf = NegInf"
| "js_sub (Num a) NegInf = PosInf"
| "js_sub PosInf (Num b) = PosInf"
| "js_sub PosInf NegInf = PosInf"
| "js_sub NegInf (Num b) = NegInf"
| "js_sub NegInf PosInf = NegInf"
| "js_sub _ _ = NaN"

fun js_mul :: "jsnum \<Rightarrow> jsnum \<Rightarrow> jsnum" where
  "js_mul (Num a) (Num b) = rnd (a * b)"
| "js_mul (Num a) PosInf = (if a = 0 then NaN else if 0 < a then PosInf else NegInf)"
| "js_mul (Num a) NegInf = (if a = 0 then NaN else if 0 < a then NegInf else PosInf)"
| "js_mul PosInf (Num b) = (if b = 0 then NaN else if 0 < b then PosInf else NegInf)"
| "js_mul NegInf (Num b) = (if b = 0 then NaN else if 0 < b then NegInf else PosInf)"
| "js_mul PosInf PosInf = PosInf"
| "js_mul NegInf NegInf = PosInf"
| "js_mul PosInf NegInf = NegInf"
| "js_mul NegInf PosInf = NegInf"
| "js_mul _ _ = NaN"

section \<open>Values of a product field\<close>

text \<open>
  A price field of a product record is a string, a number, or missing
  (\<open>undefined\<close> or \<open>null\<close>).
\<close>

datatype jsval = JStr string | JNum jsnum | JUndefined

text \<open>Truthiness, as \<^verbatim>\<open>if (v)\<close> and \<^verbatim>\<open>v && ...\<close> test it.\<close>

fun truthy :: "jsval \<Rightarrow> bool" where
  "truthy (JStr s) = (s \<noteq> [])"
| "truthy (JNum NaN) = False"
| "truthy (JNum (Num r)) = (r \<noteq> 0)"
| "truthy (JNum PosInf) = True"
| "truthy (JNum NegInf) = True"
| "truthy JUndefined = False"

text \<open>Strict inequality \<^verbatim>\<open>a !== b\<close>: values of different types differ, \<open>NaN\<close> differs
  from everything, itself included.\<close>

fun strict_neq :: "jsval \<Rightarrow> jsval \<Rightarrow> bool" where
  "strict_neq (JStr a) (JStr b) = (a \<noteq> b)"
| "strict_neq (JNum a) (JNum b) = (a = NaN \<or> b = NaN \<or> a \<noteq> b)"
| "strict_neq JUndefined JUndefined = False"
| "strict_neq _ _ = True"

section \<open>Parsing and printing prices\<close>

definition is_digit :: "char \<Rightarrow> bool" where
  "is_digit c = (48 \<le> (of_char c :: nat) \<and> (of_char c :: nat) \<le> 57)"

definition digit_value :: "char \<Rightarrow> nat" where
  "digit_value c = of_char c - 48"

text \<open>\<^verbatim>\<open>s.replace(/[^0-9.]/g, '')\<close>: keep the digits and the decimal points.\<close>

definition strip_non_numeric :: "string \<Rightarrow> string" where
  "strip_non_numeric s = filter (\<lambda>c. is_digit c \<or> c = CHR ''.'') s"

definition digits_value :: "string \<Rightarrow> nat" where
  "digits_value ds = foldl (\<lambda>a c. 10 * a + digit_value c) 0 ds"

text \<open>
  \<^verbatim>\<open>parseFloat\<close> on the strings the script passes to it, which hold digits and
  decimal points only: the longest prefix that is a decimal literal (digits, then
  optionally a point and digits; or a point and at least one digit) is read, and the
  result is \<open>NaN\<close> when no prefix is one. A sign, an exponent or white space never
  reach it. The value is the double nearest to the decimal that was read (browsers
  round a literal of any length correctly), so a long enough run of digits gives
  \<open>Infinity\<close>.
\<close>

definition parseFloat :: "string \<Rightarrow> jsnum" where
  "parseFloat s =
     (let ip = takeWhile is_digit s; r = dropWhile is_digit s in
      case r of
        [] \<Rightarrow> (if ip = [] then NaN else rnd (of_nat (digits_value ip)))
      | c # r' \<Rightarrow>
          (if c = CHR ''.'' then
             (let fp = takeWhile is_digit r' in
              if ip = [] \<and> fp = [] then NaN
              else rnd (of_nat (digits_value ip) + of_nat (digits_value fp) / 10 ^ length fp))
           else if ip = [] then NaN else rnd (of_nat (digits_value ip))))"

text \<open>The decimal digits of a natural number.\<close>

fun decimal :: "nat \<Rightarrow> string" where
  "decimal n =
     (if n < 10 then [''0123456789'' ! n]
      else decimal (n div 10) @ [''0123456789'' ! (n mod 10)])"

text \<open>
  The text a number is printed as. \<open>Shortest r\<close> stands for \<^verbatim>\<open>String(r)\<close>, the
  shortest digits that read back as the same double, which depend on the binary
  representation and are not computed here.
\<close>

datatype numtext = Txt string | Shortest rat

text \<open>
  \<^verbatim>\<open>x.toFixed(2)\<close>: \<open>NaN\<close> and the infinities print as their names; a magnitude of
  \<open>10^21\<close> or more prints as \<^verbatim>\<open>String(x)\<close>; otherwise the sign, then the integer \<open>n\<close>
  nearest to \<open>100 * |x|\<close> (the larger one on a tie) with a point before its last two
  digits. The nearest integer is taken from the exact value of the double, which is
  why \<^verbatim>\<open>(1.005).toFixed(2)\<close> is \<^verbatim>\<open>1.00\<close>: the double nearest to 1.005 lies below it.
\<close>

definition toFixed2 :: "jsnum \<Rightarrow> numtext" where
  "toFixed2 x =
     (case x of
        NaN \<Rightarrow> Txt ''NaN''
      | PosInf \<Rightarrow> Txt ''Infinity''
      | NegInf \<Rightarrow> Txt ''-Infinity''
      | Num r \<Rightarrow>
          (if 10 ^ 21 \<le> \<bar>r\<bar> then Shortest r
           else
             (let n = nat \<lfloor>\<bar>r\<bar> * 100 + 1 / 2\<rfloor> in
              Txt ((if r < 0 then ''-'' else '''') @ decimal (n div 100) @ ''.'' @
                   decimal (n mod 100 div 10) @ decimal (n mod 10)))))"

text \<open>
  \<^verbatim>\<open>extractCurrentPrice\<close> (lines 537 to 547): a string is stripped, parsed and printed
  with two decimals; a number is printed with two decimals; anything else gives
  \<^verbatim>\<open>"0.00"\<close>.
\<close>

definition extractCurrentPrice :: "jsval \<Rightarrow> numtext" where
  "extractCurrentPrice priceString =
     (case priceString of
        JStr s \<Rightarrow> toFixed2 (parseFloat (strip_non_numeric s))
      | JNum n \<Rightarrow> toFixed2 n
      | JUndefined \<Rightarrow> Txt ''0.00'')"

section \<open>Discounts\<close>

text \<open>
  The numeric value \<^verbatim>\<open>calculateDiscount\<close> (lines 613 to 629) reads from an argument:
  a string is stripped and parsed; \<^verbatim>\<open>parseFloat\<close> of a number is that number, and of
  a missing value \<open>NaN\<close>.
\<close>

definition numeric :: "jsval \<Rightarrow> jsnum" where
  "numeric v =
     (case v of
        JStr s \<Rightarrow> parseFloat (strip_non_numeric s)
      | JNum n \<Rightarrow> n
      | JUndefined \<Rightarrow> NaN)"

text \<open>\<^verbatim>\<open>Math.round\<close>: the nearest integer, the larger one on a tie; \<open>NaN\<close> and the
  infinities are returned as they are. The nearest integer of a double is a double.\<close>

fun math_round :: "jsnum \<Rightarrow> jsnum" where
  "math_round (Num x) = Num (of_int \<lfloor>x + 1 / 2\<rfloor>)"
| "math_round x = x"

text \<open>
  The guard \<^verbatim>\<open>original > 0 && current < original\<close> is false as soon as one side is
  \<open>NaN\<close>, and the function then returns 0. Behind the guard the quotient, the
  difference and the product are each rounded to a double before \<^verbatim>\<open>Math.round\<close>.
\<close>

definition calculateDiscount :: "jsval \<Rightarrow> jsval \<Rightarrow> jsnum" where
  "calculateDiscount currentPrice originalPrice =
     (let current = numeric currentPrice; original = numeric originalPrice in
      if js_less (Num 0) original \<and> js_less current original
      then math_round (js_mul (js_sub (Num 1) (js_div current original)) (Num 100))
      else Num 0)"

section \<open>Products and their price view\<close>

text \<open>
  A product record as the backend sends it. Optional text fields are \<open>None\<close> when
  missing; the two price fields are strings or numbers.
\<close>

record product =
  product_id :: string
  name :: string
  description :: string
  price :: jsval
  original_price :: jsval
  in_stock :: string
  image_url :: "string option"
  category :: "string option"
  model :: "string option"
  brand :: "string option"
  rating :: "rat option"
  warranty :: "string option"

text \<open>
  The struck-through text of the sale view: a string original price verbatim, any other
  value as a dollar sign and \<^verbatim>\<open>parseFloat(original_price).toFixed(2)\<close>.
\<close>

datatype strikeout = Verbatim string | Dollar numtext

text \<open>
  The two markups \<^verbatim>\<open>formatPriceDisplay\<close> (lines 587 to 608) builds. \<open>PlainBadge v\<close> is
  the blue badge holding \<open>v\<close>; \<open>SaleBadge v d t\<close> is the column with the red badge of
  \<open>v\<close> and \<^verbatim>\<open>-d%\<close>, over the struck-through \<open>t\<close>. Both interpolate the raw
  \<^verbatim>\<open>price\<close> field.
\<close>

datatype price_view = PlainBadge jsval | SaleBadge jsval jsnum strikeout

definition formatPriceDisplay :: "product \<Rightarrow> price_view" where
  "formatPriceDisplay p =
     (if truthy (original_price p) \<and> strict_neq (original_price p) (price p) then
        (let originalPrice =
               (case original_price p of
                  JStr s \<Rightarrow> Verbatim s
                | v \<Rightarrow> Dollar (toFixed2 (numeric v)));
             discount = calculateDiscount (price p) (original_price p)
         in SaleBadge (price p) discount originalPrice)
      else PlainBadge (price p))"

section \<open>Product details and cards\<close>

datatype js_error = RangeError

datatype glyph = BlackStar | WhiteStar

text \<open>\<^verbatim>\<open>s.repeat(n)\<close> throws a \<^verbatim>\<open>RangeError\<close> on a negative count.\<close>

definition js_repeat :: "'a list \<Rightarrow> int \<Rightarrow> js_error + 'a list" where
  "js_repeat s n = (if n < 0 then Inl RangeError else Inr (concat (replicate (nat n) s)))"

text \<open>
  One constructor per line \<^verbatim>\<open>getProductDetails\<close> (lines 552 to 582) can append, each a
  \<^verbatim>\<open>div\<close> with its icon; \<open>NoDetails\<close> is the fallback markup
  \<^verbatim>\<open>No additional details available\<close>.
\<close>

datatype detail =
    CategoryLine string
  | ModelLine string
  | BrandLine string
  | RatingLine "glyph list" rat
  | WarrantyLine string
  | NoDetails

text \<open>\<^verbatim>\<open>if (v) { details += line(v) }\<close> for a text field.\<close>

definition add_line :: "(string \<Rightarrow> detail) \<Rightarrow> string option \<Rightarrow> detail list \<Rightarrow> detail list" where
  "add_line mk v details =
     (case v of
        None \<Rightarrow> details
      | Some s \<Rightarrow> (if s \<noteq> [] then details @ [mk s] else details))"

text \<open>
  The rating block: skipped for a missing or zero rating; the stars are
  \<^verbatim>\<open>floor(rating)\<close> black ones and \<^verbatim>\<open>5 - floor(rating)\<close> white ones.
\<close>

definition rating_line :: "rat option \<Rightarrow> js_error + detail list" where
  "rating_line v =
     (case v of
        None \<Rightarrow> Inr []
      | Some r \<Rightarrow>
          (if r = 0 then Inr []
           else
             (case js_repeat [BlackStar] \<lfloor>r\<rfloor> of
                Inl e \<Rightarrow> Inl e
              | Inr black \<Rightarrow>
                  (case js_repeat [WhiteStar] (5 - \<lfloor>r\<rfloor>) of
                     Inl e \<Rightarrow> Inl e
                   | Inr white \<Rightarrow> Inr [RatingLine (black @ white) r]))))"

definition getProductDetails :: "product \<Rightarrow> js_error + detail list" where
  "getProductDetails p =
     (let details = add_line CategoryLine (category p) [];
          details = add_line ModelLine (model p) details;
          details = add_line BrandLine (brand p) details
      in case rating_line (rating p) of
           Inl e \<Rightarrow> Inl e
         | Inr stars \<Rightarrow>
             (let details = details @ stars;
                  details = add_line WarrantyLine (warranty p) details
              in Inr (if details = [] then [NoDetails] else details)))"

text \<open>
  \<^verbatim>\<open>encodeURIComponent\<close> on code units below 256: the unreserved characters stay,
  every other one becomes the percent-escapes of its UTF-8 bytes.
\<close>

definition uri_unreserved :: "char \<Rightarrow> bool" where
  "uri_unreserved c =
     (let n = (of_char c :: nat) in
      (48 \<le> n \<and> n \<le> 57) \<or> (65 \<le> n \<and> n \<le> 90) \<or> (97 \<le> n \<and> n \<le> 122) \<or>
      List.member ''-_.!~*'()'' c)"

definition percent :: "nat \<Rightarrow> string" where
  "percent b = [CHR ''%'', ''0123456789ABCDEF'' ! (b div 16), ''0123456789ABCDEF'' ! (b mod 16)]"

definition encode_unit :: "char \<Rightarrow> string" where
  "encode_unit c =
     (let n = (of_char c :: nat) in
      if uri_unreserved c then [c]
      else if n < 128 then percent n
      else percent (192 + n div 64) @ percent (128 + n mod 64))"

definition encodeURIComponent :: "string \<Rightarrow> string" where
  "encodeURIComponent s = concat (map encode_unit s)"

definition amazon_search :: "string \<Rightarrow> string" where
  "amazon_search q = ''https://www.amazon.com/s?k='' @ encodeURIComponent q"

text \<open>
  What one pass of the \<^verbatim>\<open>forEach\<close> of \<^verbatim>\<open>displayProducts\<close> (lines 457 to 516) puts
  into a card. \<open>card_price_label\<close> is the text after the dollar sign of the price tag.
\<close>

record card =
  card_title :: string
  card_image :: string
  card_stock_class :: string
  card_stock :: string
  card_price_label :: numtext
  card_description :: string
  card_price :: price_view
  card_details :: "detail list"
  card_button_id :: string
  card_amazon :: string

definition placeholder_image :: string where
  "placeholder_image = ''https://via.placeholder.com/150x150?text=No+Image''"

definition productCard :: "product \<Rightarrow> js_error + card" where
  "productCard p =
     (let priceDisplay = formatPriceDisplay p;
          amazonUrl = amazon_search (name p);
          imageUrl =
            (case image_url p of
               None \<Rightarrow> placeholder_image
             | Some u \<Rightarrow> if u \<noteq> [] then u else placeholder_image);
          currentPrice = extractCurrentPrice (price p)
      in case getProductDetails p of
           Inl e \<Rightarrow> Inl e
         | Inr productDetails \<Rightarrow>
             Inr \<lparr> card_title = name p,
                   card_image = imageUrl,
                   card_stock_class =
                     (if in_stock p = ''In Stock'' then ''bg-success'' else ''bg-danger''),
                   card_stock = in_stock p,
                   card_price_label = currentPrice,
                   card_description =
                     take 100 (description p) @
                     (if length (description p) > 100 then ''...'' else []),
                   card_price = priceDisplay,
                   card_details = productDetails,
                   card_button_id = product_id p,
                   card_amazon = amazonUrl \<rparr>)"

section \<open>Linking product mentions\<close>

text \<open>
  \<^verbatim>\<open>formatMessageWithLinks\<close> (lines 353 to 370) is two \<^verbatim>\<open>String.replace\<close> calls with a
  global regular expression and a replacer function. The two expressions are modelled
  by matchers of their own; the scan is shared.
\<close>

definition is_word :: "char \<Rightarrow> bool" where
  "is_word c =
     (let n = (of_char c :: nat) in
      (48 \<le> n \<and> n \<le> 57) \<or> (65 \<le> n \<and> n \<le> 90) \<or> (97 \<le> n \<and> n \<le> 122) \<or> n = 95)"

text \<open>White space (\<^verbatim>\<open>\s\<close>, and what \<^verbatim>\<open>trim\<close> removes) among the code units below 256.\<close>

definition is_space :: "char \<Rightarrow> bool" where
  "is_space c = (let n = (of_char c :: nat) in (9 \<le> n \<and> n \<le> 13) \<or> n = 32 \<or> n = 160)"

definition trim :: "string \<Rightarrow> string" where
  "trim s = rev (dropWhile is_space (rev (dropWhile is_space s)))"

text \<open>
  Matching under the \<^verbatim>\<open>i\<close> flag: the patterns of the script hold ASCII letters only,
  and no character outside ASCII is folded onto one, so folding A to Z is enough.
\<close>

definition lower :: "char \<Rightarrow> char" where
  "lower c = (let n = (of_char c :: nat) in if 65 \<le> n \<and> n \<le> 90 then char_of (n + 32) else c)"

fun prefix_ci :: "string \<Rightarrow> string \<Rightarrow> bool" where
  "prefix_ci [] s = True"
| "prefix_ci (p # ps) [] = False"
| "prefix_ci (p # ps) (c # cs) = (lower p = lower c \<and> prefix_ci ps cs)"

fun contains_ci :: "string \<Rightarrow> string \<Rightarrow> bool" where
  "contains_ci p [] = prefix_ci p []"
| "contains_ci p (c # cs) = (prefix_ci p (c # cs) \<or> contains_ci p cs)"

definition product_keywords :: "string list" where
  "product_keywords =
     [''phone'', ''camera'', ''laptop'', ''headphone'', ''speaker'', ''watch'', ''tablet'',
      ''TV'', ''monitor'', ''keyboard'', ''mouse'', ''book'']"

definition looks_like_product :: "string \<Rightarrow> bool" where
  "looks_like_product p2 = list_ex (\<lambda>k. contains_ci k p2) product_keywords"

text \<open>The anchor both replacers build around a phrase.\<close>

definition anchor :: "string \<Rightarrow> string \<Rightarrow> string" where
  \<open>anchor query body =
     ''<a href="'' @ amazon_search query @ ''" target="_blank" class="product-link">'' @
     body @ ''</a>''\<close>

text \<open>
  \<^verbatim>\<open>s.replace(re, f)\<close> for a global expression that matches no empty string: the
  matcher is tried at each index from left to right, knowing the code unit before it;
  on a match the replacement is written and the scan resumes behind the match (the
  counter is the number of matched code units still to skip), otherwise the code unit
  is copied.
\<close>

fun replace_global ::
  "(char option \<Rightarrow> string \<Rightarrow> (string \<times> nat) option) \<Rightarrow> nat \<Rightarrow> char option \<Rightarrow> string \<Rightarrow> string"
where
  "replace_global m skip prev [] = []"
| "replace_global m (Suc k) prev (c # cs) = replace_global m k (Some c) cs"
| "replace_global m 0 prev (c # cs) =
     (case m prev (c # cs) of
        Some (out, n) \<Rightarrow> out @ replace_global m (n - 1) (Some c) cs
      | None \<Rightarrow> c # replace_global m 0 (Some c) cs)"

subsection \<open>First pass: quoted spans\<close>

definition is_quote :: "char \<Rightarrow> bool" where
  "is_quote c = (c = CHR 0x22 \<or> c = CHR 0x27)"

text \<open>
  \<^verbatim>\<open>/(["'])([^"']+?)(["'])/g\<close> at one index: a quote, one or more code units that are
  no quotes, a quote. The middle group cannot hold a quote, so it is the whole run up
  to the next quote. The replacer links the run when it holds a keyword and gives the
  match back otherwise; the result is the replacement and the length of the match.
\<close>

definition quoted_match :: "char option \<Rightarrow> string \<Rightarrow> (string \<times> nat) option" where
  "quoted_match prev s =
     (case s of
        [] \<Rightarrow> None
      | p1 # cs \<Rightarrow>
          (if is_quote p1 then
             (let p2 = takeWhile (\<lambda>x. \<not> is_quote x) cs in
              case dropWhile (\<lambda>x. \<not> is_quote x) cs of
                [] \<Rightarrow> None
              | p3 # _ \<Rightarrow>
                  (if p2 = [] then None
                   else if looks_like_product p2
                   then Some ([p1] @ anchor p2 p2 @ [p3], length p2 + 2)
                   else Some ([p1] @ p2 @ [p3], length p2 + 2)))
           else None))"

subsection \<open>Second pass: phrases before a product noun\<close>

definition noun_suffixes :: "string list" where
  "noun_suffixes = ['' product'', '' device'', '' gadget'', '' item'']"

definition articles :: "string list" where
  "articles = [''the '', ''a '', ''an '']"

text \<open>A word boundary \<^verbatim>\<open>\b\<close> between the code unit before an index and the text at it.\<close>

definition boundary :: "char option \<Rightarrow> string \<Rightarrow> bool" where
  "boundary prev s =
     ((case prev of None \<Rightarrow> False | Some c \<Rightarrow> is_word c) \<noteq>
      (case s of [] \<Rightarrow> False | c # _ \<Rightarrow> is_word c))"

text \<open>The third group and the closing \<^verbatim>\<open>\b\<close>: the first suffix, in the order of the
  alternatives, that the text starts with and that a word boundary follows.\<close>

fun match_suffix :: "string list \<Rightarrow> string \<Rightarrow> string option" where
  "match_suffix [] s = None"
| "match_suffix (suf # sufs) s =
     (if prefix_ci suf s \<and> boundary (Some (last suf)) (drop (length suf) s)
      then Some (take (length suf) s)
      else match_suffix sufs s)"

text \<open>
  The lazy group \<^verbatim>\<open>([\w\s]+?)\<close> and what follows it: with \<open>acc\<close> already taken, try the
  suffix; failing that, take one more word or space code unit.
\<close>

fun lazy_product :: "string \<Rightarrow> string \<Rightarrow> (string \<times> string) option" where
  "lazy_product acc s =
     (case match_suffix noun_suffixes s of
        Some suffix \<Rightarrow> Some (acc, suffix)
      | None \<Rightarrow>
          (case s of
             [] \<Rightarrow> None
           | c # cs \<Rightarrow> if is_word c \<or> is_space c then lazy_product (acc @ [c]) cs else None))"

definition match_product :: "string \<Rightarrow> (string \<times> string) option" where
  "match_product s =
     (case s of
        [] \<Rightarrow> None
      | c # cs \<Rightarrow> if is_word c \<or> is_space c then lazy_product [c] cs else None)"

text \<open>
  The optional first group \<^verbatim>\<open>(the |a |an )?\<close>: each article the text starts with is
  tried in order, then the empty alternative; the first that lets the rest match wins.
\<close>

fun match_article :: "string list \<Rightarrow> string \<Rightarrow> (string \<times> string \<times> string) option" where
  "match_article [] s =
     (case match_product s of
        Some (product, suffix) \<Rightarrow> Some ([], product, suffix)
      | None \<Rightarrow> None)"
| "match_article (a # as) s =
     (if prefix_ci a s then
        (case match_product (drop (length a) s) of
           Some (product, suffix) \<Rightarrow> Some (take (length a) s, product, suffix)
         | None \<Rightarrow> match_article as s)
      else match_article as s)"

text \<open>
  \<^verbatim>\<open>/\b(the |a |an )?([\w\s]+?)( product| device| gadget| item)\b/gi\<close> at one index, with
  its replacer: a phrase of more than 3 code units is linked (the query is the trimmed
  phrase), a shorter one gives the match back.
\<close>

definition noun_match :: "char option \<Rightarrow> string \<Rightarrow> (string \<times> nat) option" where
  "noun_match prev s =
     (if boundary prev s then
        (case match_article articles s of
           None \<Rightarrow> None
         | Some (article, product, suffix) \<Rightarrow>
             (if length product > 3
              then Some (article @ anchor (trim product) product @ suffix,
                         length article + length product + length suffix)
              else Some (article @ product @ suffix,
                         length article + length product + length suffix)))
      else None)"

definition formatMessageWithLinks :: "string \<Rightarrow> string" where
  "formatMessageWithLinks message =
     replace_global noun_match 0 None (replace_global quoted_match 0 None message)"

section \<open>The page state\<close>

text \<open>
  The script keeps its state in module variables and in the page. The record below
  holds what its handlers read and write; \<open>requests\<close> and \<open>reads\<close> log the
  \<^verbatim>\<open>fetch\<close> calls and the \<^verbatim>\<open>FileReader\<close> reads they start, in order. An asynchronous
  step (a settled request, a finished read) is a function of its own, applied when
  the browser delivers it. Focus, scrolling, \<^verbatim>\<open>preventDefault\<close> and the click
  listeners of the card buttons change none of these fields and are left out, as is
  the voice input, which only writes the draft.
\<close>

record attachment =
  file_name :: string
  file_type :: string

datatype role = User | Bot

text \<open>
  Messages and cards reach the page as markup assigned to \<^verbatim>\<open>innerHTML\<close>, and the script
  then looks elements up by id (\<^verbatim>\<open>getElementById('typing-indicator')\<close>) and by class
  (\<^verbatim>\<open>querySelectorAll('.message')\<close>). What the browser's parser builds from a markup
  string is kept as far as these two queries can see it: the elements that carry the id
  \<^verbatim>\<open>typing-indicator\<close> or the class \<^verbatim>\<open>message\<close>, in tree order, each with the marked
  elements inside it. \<open>Mark i c ks\<close> is such an element; \<open>i\<close> tells whether it carries
  the id, \<open>c\<close> whether it carries the class, and \<open>ks\<close> are the marked elements among its
  descendants.
\<close>

datatype mark = Mark bool bool "mark list"

text \<open>Some element of the forest carries the id.\<close>

fun any_id :: "mark list \<Rightarrow> bool" where
  "any_id [] = False"
| "any_id (Mark i c ks # ms) = (i \<or> any_id ks \<or> any_id ms)"

text \<open>The first element in tree order that carries the id is removed, with all that
  is inside it.\<close>

fun drop_id :: "mark list \<Rightarrow> mark list" where
  "drop_id [] = []"
| "drop_id (Mark i c ks # ms) =
     (if i then ms
      else if any_id ks then Mark i c (drop_id ks) # ms
      else Mark i c ks # drop_id ms)"

text \<open>Every element that carries the class is removed, with all that is inside it.\<close>

fun drop_class :: "mark list \<Rightarrow> mark list" where
  "drop_class [] = []"
| "drop_class (Mark i c ks # ms) =
     (if c then drop_class ms else Mark i c (drop_class ks) # drop_class ms)"

text \<open>
  The children of the chat container: a message of a role, a user message with the
  preview of its image, and the typing indicator (\<^verbatim>\<open>id="typing-indicator"\<close>). All three
  carry the class \<^verbatim>\<open>message\<close>. A message holds the markup that was assigned to its
  content and the marked elements its content holds now; the elements the script
  creates inside the three (the content \<^verbatim>\<open>div\<close>, the image and its container, the dots
  of the indicator) carry neither the id nor the class.
\<close>

datatype element =
    Message role string "mark list"
  | ImageMessage string string "mark list"
  | Typing

text \<open>
  A request: the JSON body of \<^verbatim>\<open>POST /api/chat\<close> (message, session), or the form of
  \<^verbatim>\<open>POST /api/chat-with-file\<close> (message, session, file; \<open>None\<close> when the value appended
  is \<^verbatim>\<open>null\<close>).
\<close>

datatype request = ChatRequest string string | FileRequest string string "attachment option"

datatype read = PreviewRead attachment | SendRead string attachment

datatype order_ref = OrderRef string

datatype log = ErrorLog | OrderLog order_ref

record payload =
  products :: "product list option"
  product :: "product option"
  order :: "order_ref option"

record reply =
  message :: string
  data :: "payload option"

text \<open>
  The body of a response: text that is no JSON (\<^verbatim>\<open>response.json()\<close> rejects), JSON
  without a string \<^verbatim>\<open>message\<close> (the handler throws when it reads it), or a reply.
\<close>

datatype body = NotJson | Malformed | Json reply

text \<open>
  How a request settles: the transport fails, or a response arrives with its
  \<^verbatim>\<open>ok\<close> flag and its body.
\<close>

datatype response = NetworkFailure | Response bool body

record ui =
  sessionId :: string
  userInput :: string
  currentAttachment :: "attachment option"
  fileUpload :: string
  chat :: "element list"
  carousel :: "card list"
  carousel_marks :: "mark list"
  carousel_hidden :: bool
  file_preview_hidden :: bool
  image_preview_hidden :: bool
  image_preview_src :: string
  alerts :: "string list"
  console :: "log list"
  requests :: "request list"
  reads :: "read list"
  fragment :: "string \<Rightarrow> mark list"
  card_fragment :: "card \<Rightarrow> mark list"

text \<open>
  The last two fields are the browser, not the script: \<open>fragment s m\<close> are the marked
  elements of what the parser builds from the markup \<open>m\<close> inside a message, and
  \<open>card_fragment s c\<close> those of what it builds from the markup of the card \<open>c\<close>. No
  handler changes them, and nothing is assumed about them. \<open>carousel_marks\<close> are the
  marked elements the carousel holds. The page as it is served has no element with
  the id \<^verbatim>\<open>typing-indicator\<close>, and its chat container comes before the carousel, so
  a lookup by id meets the chat first and then the carousel. Markup can also carry
  scripts of its own (an \<^verbatim>\<open>onerror\<close> attribute, say): they run later, as events that
  are not the script's, and are not followed here.
\<close>

section \<open>Messages and the typing indicator\<close>

text \<open>\<^verbatim>\<open>fetch\<close>: the request is issued.\<close>

definition fetch :: "request \<Rightarrow> ui \<Rightarrow> ui" where
  "fetch r s = s\<lparr>requests := requests s @ [r]\<rparr>"

text \<open>\<^verbatim>\<open>message.replace(/\n/g, '<br>')\<close>, and the paragraph the result is put in.\<close>

definition line_breaks :: "string \<Rightarrow> string" where
  "line_breaks msg = concat (map (\<lambda>c. if c = CHR 0x0A then ''<br>'' else [c]) msg)"

definition in_paragraph :: "string \<Rightarrow> string" where
  "in_paragraph m = ''<p>'' @ m @ ''</p>''"

text \<open>\<^verbatim>\<open>addMessageToChat\<close> (lines 375 to 391): the markup goes into the content by
  \<^verbatim>\<open>innerHTML\<close>, and the message is appended to the chat.\<close>

definition addMessageToChat :: "role \<Rightarrow> string \<Rightarrow> ui \<Rightarrow> ui" where
  "addMessageToChat r msg s =
     (let formattedMessage = line_breaks msg
      in s\<lparr>chat := chat s @
                [Message r formattedMessage (fragment s (in_paragraph formattedMessage))]\<rparr>)"

definition showTypingIndicator :: "ui \<Rightarrow> ui" where
  "showTypingIndicator s = s\<lparr>chat := chat s @ [Typing]\<rparr>"

text \<open>A child of the chat container is, or holds, an element with the indicator's
  id.\<close>

fun holds_id :: "element \<Rightarrow> bool" where
  "holds_id Typing = True"
| "holds_id (Message r m ks) = any_id ks"
| "holds_id (ImageMessage m u ks) = any_id ks"

text \<open>The first element of the chat in tree order with the indicator's id is removed:
  an indicator, or an element inside a message that comes before every indicator.\<close>

fun remove_id :: "element list \<Rightarrow> element list" where
  "remove_id [] = []"
| "remove_id (Typing # es) = es"
| "remove_id (Message r m ks # es) =
     (if any_id ks then Message r m (drop_id ks) # es else Message r m ks # remove_id es)"
| "remove_id (ImageMessage m u ks # es) =
     (if any_id ks then ImageMessage m u (drop_id ks) # es
      else ImageMessage m u ks # remove_id es)"

text \<open>\<^verbatim>\<open>removeTypingIndicator\<close> (lines 419 to 424): \<^verbatim>\<open>getElementById\<close> returns the first
  element of the document with the indicator's id, and that element is removed, if
  there is one.\<close>

definition removeTypingIndicator :: "ui \<Rightarrow> ui" where
  "removeTypingIndicator s =
     (if list_ex holds_id (chat s) then s\<lparr>chat := remove_id (chat s)\<rparr>
      else if any_id (carousel_marks s) then s\<lparr>carousel_marks := drop_id (carousel_marks s)\<rparr>
      else s)"

section \<open>The product carousel\<close>

text \<open>
  \<^verbatim>\<open>displayProducts\<close> (lines 452 to 532): the carousel is emptied, a card is appended per
  product with its markup, then the container is shown. A card that throws leaves the
  cards before it in place and the container as it was.
\<close>

fun build_cards :: "product list \<Rightarrow> card list \<Rightarrow> card list \<times> js_error option" where
  "build_cards [] acc = (acc, None)"
| "build_cards (p # ps) acc =
     (case productCard p of
        Inl e \<Rightarrow> (acc, Some e)
      | Inr c \<Rightarrow> build_cards ps (acc @ [c]))"

definition displayProducts :: "product list \<Rightarrow> ui \<Rightarrow> ui \<times> js_error option" where
  "displayProducts ps s =
     (case build_cards ps [] of
        (cards, Some e) \<Rightarrow>
          (s\<lparr>carousel := cards, carousel_marks := concat (map (card_fragment s) cards)\<rparr>,
           Some e)
      | (cards, None) \<Rightarrow>
          (s\<lparr>carousel := cards, carousel_marks := concat (map (card_fragment s) cards),
             carousel_hidden := False\<rparr>, None))"

text \<open>\<^verbatim>\<open>handleResponseData\<close> (lines 429 to 447).\<close>

definition handleResponseData :: "payload \<Rightarrow> ui \<Rightarrow> ui \<times> js_error option" where
  "handleResponseData d s =
     (case products d of
        Some (p # ps) \<Rightarrow> displayProducts (p # ps) s
      | _ \<Rightarrow>
          (case product d of
             Some p \<Rightarrow> displayProducts [p] s
           | None \<Rightarrow>
               (case order d of
                  Some ord \<Rightarrow> (s\<lparr>console := console s @ [OrderLog ord]\<rparr>, None)
                | None \<Rightarrow> (s\<lparr>carousel_hidden := True\<rparr>, None))))"

section \<open>Attachments\<close>

definition starts_with :: "string \<Rightarrow> string \<Rightarrow> bool" where
  "starts_with pre s = (take (length pre) s = pre)"

text \<open>\<^verbatim>\<open>name.replace(/\.[^/.]+$/, '')\<close>: a last point followed, up to the end, by one or
  more code units that are neither a point nor a slash is cut off with them.\<close>

definition strip_extension :: "string \<Rightarrow> string" where
  "strip_extension n =
     (let ext = takeWhile (\<lambda>c. c \<noteq> CHR ''.'' \<and> c \<noteq> CHR ''/'') (rev n);
          before = dropWhile (\<lambda>c. c \<noteq> CHR ''.'' \<and> c \<noteq> CHR ''/'') (rev n)
      in case before of
           [] \<Rightarrow> n
         | c # cs \<Rightarrow> if c = CHR ''.'' \<and> ext \<noteq> [] then rev cs else n)"

definition unsupported_notice :: string where
  "unsupported_notice = ''Only image files are supported at this time.''"

text \<open>\<^verbatim>\<open>handleFileUpload\<close> (lines 712 to 743), on the first file of the change event.\<close>

definition handleFileUpload :: "attachment option \<Rightarrow> ui \<Rightarrow> ui" where
  "handleFileUpload chosen s =
     (case chosen of
        None \<Rightarrow> s
      | Some f \<Rightarrow>
          (if \<not> starts_with ''image/'' (file_type f)
           then s\<lparr>alerts := alerts s @ [unsupported_notice], fileUpload := []\<rparr>
           else s\<lparr>currentAttachment := Some f,
                  reads := reads s @ [PreviewRead f],
                  file_preview_hidden := False,
                  userInput := ''I'm sending an image of '' @ strip_extension (file_name f) @ ''.''\<rparr>))"

text \<open>The \<^verbatim>\<open>onload\<close> of the preview read.\<close>

definition previewLoaded :: "string \<Rightarrow> ui \<Rightarrow> ui" where
  "previewLoaded url s = s\<lparr>image_preview_src := url, image_preview_hidden := False\<rparr>"

definition removeAttachment :: "ui \<Rightarrow> ui" where
  "removeAttachment s =
     s\<lparr>currentAttachment := None, fileUpload := [], file_preview_hidden := True,
       image_preview_hidden := True, userInput := []\<rparr>"

section \<open>Sending\<close>

definition apology :: string where
  "apology = ''Sorry, I encountered an error. Please try again.''"

definition file_apology :: string where
  "file_apology = ''Sorry, I encountered an error processing your file. Please try again.''"

text \<open>The two \<^verbatim>\<open>catch\<close> handlers (lines 342 to 346 and 841 to 845).\<close>

definition chatFailed :: "ui \<Rightarrow> ui" where
  "chatFailed s =
     addMessageToChat Bot apology (removeTypingIndicator (s\<lparr>console := console s @ [ErrorLog]\<rparr>))"

definition fileFailed :: "ui \<Rightarrow> ui" where
  "fileFailed s =
     addMessageToChat Bot file_apology (removeTypingIndicator (s\<lparr>console := console s @ [ErrorLog]\<rparr>))"

text \<open>
  The promise chain of \<^verbatim>\<open>sendMessage\<close> (lines 324 to 346) on a settled request. A
  transport failure, a status that is not ok and a body that is not JSON go to the
  \<^verbatim>\<open>catch\<close> handler. Otherwise the second \<^verbatim>\<open>then\<close> handler runs; when it throws (on
  a body without a message, right after it removed the indicator; or when a card of the
  carousel throws), the \<^verbatim>\<open>catch\<close> handler runs after it, on the state the handler
  left.
\<close>

definition chatSettled :: "response \<Rightarrow> ui \<Rightarrow> ui" where
  "chatSettled r s =
     (case r of
        NetworkFailure \<Rightarrow> chatFailed s
      | Response ok body \<Rightarrow>
          (if \<not> ok then chatFailed s
           else
             (case body of
                NotJson \<Rightarrow> chatFailed s
              | Malformed \<Rightarrow> chatFailed (removeTypingIndicator s)
              | Json d \<Rightarrow>
                  (let s = removeTypingIndicator s;
                       s = addMessageToChat Bot (formatMessageWithLinks (message d)) s
                   in case data d of
                        None \<Rightarrow> s
                      | Some pl \<Rightarrow>
                          (case handleResponseData pl s of
                             (s, None) \<Rightarrow> s
                           | (s, Some e) \<Rightarrow> chatFailed s)))))"

text \<open>The promise chain of \<^verbatim>\<open>sendFileToBackend\<close> (lines 823 to 845); the reply is
  shown without links.\<close>

definition fileSettled :: "response \<Rightarrow> ui \<Rightarrow> ui" where
  "fileSettled r s =
     (case r of
        NetworkFailure \<Rightarrow> fileFailed s
      | Response ok body \<Rightarrow>
          (if \<not> ok then fileFailed s
           else
             (case body of
                NotJson \<Rightarrow> fileFailed s
              | Malformed \<Rightarrow> fileFailed (removeTypingIndicator s)
              | Json d \<Rightarrow>
                  (let s = removeTypingIndicator s;
                       s = addMessageToChat Bot (message d) s
                   in case data d of
                        None \<Rightarrow> s
                      | Some pl \<Rightarrow>
                          (case handleResponseData pl s of
                             (s, None) \<Rightarrow> s
                           | (s, Some e) \<Rightarrow> fileFailed s)))))"

text \<open>\<^verbatim>\<open>sendFileToBackend\<close> up to its \<^verbatim>\<open>fetch\<close> (lines 810 to 822).\<close>

definition sendFileToBackend :: "string \<Rightarrow> attachment option \<Rightarrow> ui \<Rightarrow> ui" where
  "sendFileToBackend msg f s =
     (let s = showTypingIndicator s
      in fetch (FileRequest msg (sessionId s) f) s)"

text \<open>
  \<^verbatim>\<open>sendMessageWithAttachment\<close> (lines 760 to 805): the read of the attachment is
  started with the message in its closure, then the input and the attachment are
  cleared. Nothing is sent before the read has finished.
\<close>

definition sendMessageWithAttachment :: "ui \<Rightarrow> ui" where
  "sendMessageWithAttachment s =
     (case currentAttachment s of
        None \<Rightarrow> s
      | Some f \<Rightarrow>
          (let msg = (if trim (userInput s) \<noteq> [] then trim (userInput s)
                      else ''I'm sending an image.'');
               s = s\<lparr>reads := reads s @ [SendRead msg f]\<rparr>;
               s = s\<lparr>userInput := []\<rparr>
           in removeAttachment s))"

text \<open>
  The \<^verbatim>\<open>onload\<close> of that read (lines 785 to 799), with the message of its closure and
  the data the read produced: the user message, whose markup went into its content by
  \<^verbatim>\<open>innerHTML\<close> (line 773), is appended and the request is sent with the attachment
  variable as it is by then.
\<close>

definition attachmentLoaded :: "string \<Rightarrow> string \<Rightarrow> ui \<Rightarrow> ui" where
  "attachmentLoaded msg url s =
     (let s = s\<lparr>chat := chat s @ [ImageMessage msg url (fragment s (in_paragraph msg))]\<rparr>
      in sendFileToBackend msg (currentAttachment s) s)"

text \<open>\<^verbatim>\<open>sendMessage\<close> (lines 291 to 347), up to its \<^verbatim>\<open>fetch\<close>.\<close>

definition sendMessage :: "ui \<Rightarrow> ui" where
  "sendMessage s =
     (let msg = trim (userInput s) in
      if currentAttachment s \<noteq> None then sendMessageWithAttachment s
      else if msg = [] then s
      else
        (let s = addMessageToChat User msg s;
             s = s\<lparr>userInput := []\<rparr>;
             s = showTypingIndicator s
         in fetch (ChatRequest msg (sessionId s)) s))"

text \<open>
  \<^verbatim>\<open>clearChat\<close> (lines 634 to 646): of the elements of class \<^verbatim>\<open>message\<close> in the chat
  container, every one but the first is removed, and the carousel is hidden. The first
  is the first child; the others are the children after it and the elements of that
  class inside it.
\<close>

fun without_messages :: "element \<Rightarrow> element" where
  "without_messages (Message r m ks) = Message r m (drop_class ks)"
| "without_messages (ImageMessage m u ks) = ImageMessage m u (drop_class ks)"
| "without_messages Typing = Typing"

definition clearChat :: "ui \<Rightarrow> ui" where
  "clearChat s = s\<lparr>chat := map without_messages (take 1 (chat s)), carousel_hidden := True\<rparr>"

section \<open>Example data\<close>

text \<open>The product of the specification's example response.\<close>

definition speaker :: product where
  "speaker =
     \<lparr> product_id = ''p1'', name = ''Speaker'', description = ''...'',
       price = JStr ''$80'', original_price = JStr ''$100'', in_stock = ''In Stock'',
       image_url = None, category = None, model = None, brand = None, rating = None,
       warranty = None \<rparr>"

text \<open>
  The browser of the examples. Their messages are plain text in a paragraph, which
  holds no marked element, but for one draft, \<^verbatim>\<open><i id=typing-indicator></i>\<close>, whose
  paragraph holds an element with the indicator's id. Their cards are built from plain
  text and hold no marked element.
\<close>

definition example_fragment :: "string \<Rightarrow> mark list" where
  "example_fragment m =
     (if m = ''<p><i id=typing-indicator></i></p>'' then [Mark True False []] else [])"

definition example_card_fragment :: "card \<Rightarrow> mark list" where
  "example_card_fragment c = []"

text \<open>A page right after loading, with the welcome message.\<close>

definition fresh_page :: ui where
  "fresh_page =
     \<lparr> sessionId = ''session_1'', userInput = [], currentAttachment = None, fileUpload = [],
       chat = [Message Bot ''Hello!'' []], carousel = [], carousel_marks = [],
       carousel_hidden = True,
       file_preview_hidden = True, image_preview_hidden = True, image_preview_src = [],
       alerts = [], console = [], requests = [], reads = [],
       fragment = example_fragment, card_fragment = example_card_fragment \<rparr>"

definition photo :: attachment where
  "photo = \<lparr> file_name = ''desk.png'', file_type = ''image/png'' \<rparr>"

definition invoice :: attachment where
  "invoice = \<lparr> file_name = ''invoice.pdf'', file_type = ''application/pdf'' \<rparr>"

text \<open>The same product with a category, a rating of 4.5 and a warranty.\<close>

definition studio_speaker :: product where
  "studio_speaker =
     speaker\<lparr>category := Some ''Audio'', rating := Some (9 / 2), warranty := Some ''1 year''\<rparr>"

text \<open>A payload with all three of its fields filled.\<close>

definition full_payload :: payload where
  "full_payload =
     \<lparr> products = Some [speaker], product = Some studio_speaker,
       order = Some (OrderRef ''o1'') \<rparr>"

text \<open>A draft typed into the fresh page, and the page with the photo staged.\<close>

definition typed_page :: ui where
  "typed_page = fresh_page\<lparr>userInput := ''Show me headphones''\<rparr>"

definition staged_page :: ui where
  "staged_page = previewLoaded ''data:image/png;base64,AAAA'' (handleFileUpload (Some photo) fresh_page)"

text \<open>A reply whose product has a rating of 7: its card throws.\<close>

definition bad_reply :: reply where
  "bad_reply =
     \<lparr> message = ''ok'',
       data = Some \<lparr> products = Some [speaker\<lparr>rating := Some 7\<rparr>], product = None, order = None \<rparr> \<rparr>"

text \<open>A draft that is markup: an element with the indicator's id.\<close>

definition marked_page :: ui where
  "marked_page = fresh_page\<lparr>userInput := ''<i id=typing-indicator></i>''\<rparr>"

section \<open>The specification's wording, for comparison with the code\<close>

text \<open>
  The definitions of this section follow the specification, not the script: the detail
  lines as a selection from a fixed order of fields, and a payload whose product list
  is populated.
\<close>

datatype field = Category | Model | Brand | Rating | Warranty

definition field_order :: "field list" where
  "field_order = [Category, Model, Brand, Rating, Warranty]"

definition text_shown :: "string option \<Rightarrow> bool" where
  "text_shown v = (case v of None \<Rightarrow> False | Some s \<Rightarrow> s \<noteq> [])"

definition the_text :: "string option \<Rightarrow> string" where
  "the_text v = (case v of None \<Rightarrow> [] | Some s \<Rightarrow> s)"

text \<open>A field is shown when its value is truthy: a text that is not empty, a rating
  that is not 0.\<close>

fun field_shown :: "product \<Rightarrow> field \<Rightarrow> bool" where
  "field_shown p Category = text_shown (category p)"
| "field_shown p Model = text_shown (model p)"
| "field_shown p Brand = text_shown (brand p)"
| "field_shown p Rating = (case rating p of None \<Rightarrow> False | Some r \<Rightarrow> r \<noteq> 0)"
| "field_shown p Warranty = text_shown (warranty p)"

text \<open>The star scale of a rating: \<open>floor(r)\<close> filled glyphs, then hollow ones up to 5.\<close>

definition star_scale :: "rat \<Rightarrow> glyph list" where
  "star_scale r = replicate (nat \<lfloor>r\<rfloor>) BlackStar @ replicate (5 - nat \<lfloor>r\<rfloor>) WhiteStar"

fun field_line :: "product \<Rightarrow> field \<Rightarrow> detail" where
  "field_line p Category = CategoryLine (the_text (category p))"
| "field_line p Model = ModelLine (the_text (model p))"
| "field_line p Brand = BrandLine (the_text (brand p))"
| "field_line p Rating =
     (case rating p of None \<Rightarrow> NoDetails | Some r \<Rightarrow> RatingLine (star_scale r) r)"
| "field_line p Warranty = WarrantyLine (the_text (warranty p))"

definition spec_details :: "product \<Rightarrow> detail list" where
  "spec_details p =
     (let ls = map (field_line p) (filter (field_shown p) field_order)
      in if ls = [] then [NoDetails] else ls)"

definition rating_in_range :: "product \<Rightarrow> bool" where
  "rating_in_range p = (case rating p of None \<Rightarrow> True | Some r \<Rightarrow> 0 \<le> r \<and> r \<le> 5)"

definition spec_description :: "string \<Rightarrow> string" where
  "spec_description d = (if length d > 100 then take 100 d @ ''...'' else d)"

text \<open>The product list of a payload is populated: it is there and not empty.\<close>

definition populated :: "payload \<Rightarrow> bool" where
  "populated d = (case products d of Some (q # qs) \<Rightarrow> True | _ \<Rightarrow> False)"

text \<open>The number of typing indicators the chat shows: the indicators of the script,
  not markup of a message that imitates one.\<close>

definition indicators :: "ui \<Rightarrow> nat" where
  "indicators s = length (filter (\<lambda>e. e = Typing) (chat s))"

text \<open>
  What can happen on the page while a request is in flight without another submit, a
  clear-chat or another settlement: the user edits the draft, chooses a file, the
  preview of a chosen file is loaded, the attachment is removed.
\<close>

datatype event = Typed string | Chosen "attachment option" | Previewed string | Unstaged

fun occur :: "event \<Rightarrow> ui \<Rightarrow> ui" where
  "occur (Typed t) s = s\<lparr>userInput := t\<rparr>"
| "occur (Chosen f) s = handleFileUpload f s"
| "occur (Previewed url) s = previewLoaded url s"
| "occur Unstaged s = removeAttachment s"

definition in_flight :: "event list \<Rightarrow> ui \<Rightarrow> ui" where
  "in_flight es s = foldl (\<lambda>s e. occur e s) s es"

text \<open>A response that is a failure in the specification's sense: no response at all,
  or a status that is not a success.\<close>

fun failed :: "response \<Rightarrow> bool" where
  "failed NetworkFailure = True"
| "failed (Response ok b) = (\<not> ok)"

section \<open>Properties of the rounding to a double\<close>

declare exp_up.simps [simp del] exp_down.simps [simp del]

lemma exp_up_stop: "q < 2 ^ (k + 1) \<Longrightarrow> exp_up q k = int k"
  by (subst exp_up.simps) simp

lemma exp_up_step: "\<not> q < 2 ^ (k + 1) \<Longrightarrow> exp_up q k = exp_up q (k + 1)"
  by (subst exp_up.simps) simp

lemma exp_down_stop: "q \<le> 0 \<or> 1 \<le> q * 2 ^ k \<Longrightarrow> exp_down q k = - int k"
  by (subst exp_down.simps) simp

lemma exp_down_step: "\<not> (q \<le> 0 \<or> 1 \<le> q * 2 ^ k) \<Longrightarrow> exp_down q k = exp_down q (k + 1)"
  by (subst exp_down.simps) simp

lemma exp_up_le: "2 ^ k \<le> q \<Longrightarrow> 2 powi (exp_up q k) \<le> q"
proof (induction q k rule: exp_up.induct)
  case (1 q k)
  show ?case
  proof (cases "q < 2 ^ (k + 1)")
    case True
    with "1.prems" show ?thesis by (simp add: exp_up_stop)
  next
    case False
    then have "2 ^ (k + 1) \<le> q" by simp
    with "1.IH" False show ?thesis by (simp add: exp_up_step)
  qed
qed

lemma exp_down_le: "0 < q \<Longrightarrow> 2 powi (exp_down q k) \<le> q"
proof (induction q k rule: exp_down.induct)
  case (1 q k)
  show ?case
  proof (cases "q \<le> 0 \<or> 1 \<le> q * 2 ^ k")
    case True
    with "1.prems" have "1 \<le> q * 2 ^ k" by simp
    then have "1 / 2 ^ k \<le> q" by (simp add: divide_le_eq)
    with True show ?thesis by (simp add: exp_down_stop power_int_minus inverse_eq_divide)
  next
    case False
    with "1.IH" "1.prems" show ?thesis by (simp add: exp_down_step)
  qed
qed

lemma exponent_le: "0 < q \<Longrightarrow> 2 powi (exponent q) \<le> q"
  by (simp add: exponent_def exp_up_le exp_down_le)

lemma round_half_even_ge: "\<lfloor>t\<rfloor> \<le> round_half_even t"
  by (simp add: round_half_even_def Let_def)

lemma round_half_even_le: "round_half_even t \<le> \<lceil>t\<rceil>"
proof -
  have "t - of_int \<lfloor>t\<rfloor> \<noteq> 0 \<Longrightarrow> \<lfloor>t\<rfloor> + 1 \<le> \<lceil>t\<rceil>"
    by (metis ceiling_altdef diff_eq_diff_eq diff_zero order_refl)
  moreover have "\<lfloor>t\<rfloor> \<le> \<lceil>t\<rceil>" by (rule floor_le_ceiling)
  ultimately show ?thesis
    by (auto simp: round_half_even_def Let_def)
qed

lemma exponent_small:
  assumes "0 < q" "q \<le> of_nat b" "b < 128"
  shows "exponent q < 7"
proof -
  have "2 powi (exponent q) \<le> q" using assms(1) by (rule exponent_le)
  also have "q \<le> of_nat b" by fact
  also have "(of_nat b :: rat) < 2 powi 7" using assms(3) by simp
  finally show ?thesis
    by (rule power_int_le_imp_less_exp [rotated]) simp_all
qed

lemma grid_bounds:
  fixes a :: rat
  assumes "0 \<le> a" "a \<le> of_nat b" "e \<le> 52"
  defines "u \<equiv> 2 powi (e - 52)"
  shows "0 \<le> of_int (round_half_even (a / u)) * u
         \<and> of_int (round_half_even (a / u)) * u \<le> of_nat b"
proof -
  define k where "k = nat (52 - e)"
  have u: "u = 1 / 2 ^ k"
    using assms(3) by (simp add: u_def k_def power_int_def inverse_eq_divide power_one_over)
  have upos: "0 < u" by (simp add: u)
  have t: "a / u = a * 2 ^ k" by (simp add: u)
  have "0 \<le> a / u" using assms(1) upos by simp
  then have "0 \<le> \<lfloor>a / u\<rfloor>" by simp
  then have lo: "0 \<le> round_half_even (a / u)"
    using round_half_even_ge [of "a / u"] by linarith
  have "a / u \<le> of_int (int (b * 2 ^ k))"
    using assms(2) by (simp add: t)
  then have "\<lceil>a / u\<rceil> \<le> int (b * 2 ^ k)" by (simp only: ceiling_le_iff)
  then have hi: "round_half_even (a / u) \<le> int (b * 2 ^ k)"
    using round_half_even_le [of "a / u"] by linarith
  from lo upos have "0 \<le> of_int (round_half_even (a / u)) * u" by simp
  moreover have "of_int (round_half_even (a / u)) * u \<le> of_int (int (b * 2 ^ k)) * u"
    using hi upos by (simp only: mult_le_cancel_right_pos of_int_le_iff)
  moreover have "of_int (int (b * 2 ^ k)) * u = (of_nat b :: rat)" by (simp add: u)
  ultimately show ?thesis by (simp only: simp_thms)
qed

lemma rnd_bounds:
  assumes "0 \<le> q" "q \<le> of_nat b" "b < 128"
  shows "\<exists>r. rnd q = Num r \<and> 0 \<le> r \<and> r \<le> of_nat b"
proof (cases "q = 0")
  case True
  then show ?thesis by (simp add: rnd_def)
next
  case False
  with assms(1) have pos: "0 < q" by simp
  define e where "e = max (exponent q) (- 1022)"
  have "exponent q < 7" using pos assms(2,3) by (rule exponent_small)
  then have e52: "e \<le> 52" by (simp add: e_def)
  define r :: rat where "r = of_int (round_half_even (q / 2 powi (e - 52))) * 2 powi (e - 52)"
  from grid_bounds [OF assms(1,2) e52] have r: "0 \<le> r" "r \<le> of_nat b"
    by (simp_all add: r_def)
  have "(of_nat b :: rat) < 2 ^ 1024"
  proof -
    have "(of_nat b :: rat) < 128" using assms(3) by simp
    also have "(128 :: rat) \<le> 2 ^ 1024" by simp
    finally show ?thesis .
  qed
  with r have "\<not> 2 ^ 1024 \<le> r" by simp
  then have "rnd q = Num r"
    using pos by (simp add: rnd_def Let_def e_def [symmetric] r_def [symmetric] abs_of_pos)
  with r show ?thesis by blast
qed

lemma rnd_nonneg:
  assumes "0 \<le> q"
  shows "rnd q = PosInf \<or> (\<exists>r. rnd q = Num r \<and> 0 \<le> r)"
proof (cases "q = 0")
  case True
  then show ?thesis by (simp add: rnd_def)
next
  case False
  with assms have pos: "0 < q" by simp
  define u where "u = (2::rat) powi (max (exponent q) (- 1022) - 52)"
  have upos: "0 < u" by (simp add: u_def)
  have "0 \<le> q / u" using pos upos by simp
  then have "0 \<le> \<lfloor>q / u\<rfloor>" by simp
  then have "0 \<le> round_half_even (q / u)"
    using round_half_even_ge [of "q / u"] by linarith
  with upos have "0 \<le> of_int (round_half_even (q / u)) * u" by simp
  then show ?thesis
    using pos by (simp add: rnd_def Let_def u_def [symmetric] abs_of_pos)
qed

lemma rnd_nonpos:
  assumes "q \<le> 0"
  shows "rnd q = NegInf \<or> (\<exists>r. rnd q = Num r \<and> r \<le> 0)"
proof (cases "q = 0")
  case True
  then show ?thesis by (simp add: rnd_def)
next
  case False
  with assms have neg: "q < 0" by simp
  define a where "a = - q"
  define u where "u = (2::rat) powi (max (exponent a) (- 1022) - 52)"
  have apos: "0 < a" using neg by (simp add: a_def)
  have upos: "0 < u" by (simp add: u_def)
  have "0 \<le> a / u" using apos upos by simp
  then have "0 \<le> \<lfloor>a / u\<rfloor>" by simp
  then have "0 \<le> round_half_even (a / u)"
    using round_half_even_ge [of "a / u"] by linarith
  with upos have r: "0 \<le> of_int (round_half_even (a / u)) * u" by simp
  have abs: "\<bar>q\<bar> = a" using neg by (simp add: a_def)
  show ?thesis
    using neg r unfolding rnd_def Let_def abs u_def [symmetric] by simp
qed

text \<open>Evaluating \<open>rnd\<close> at a positive rational whose exponent is known.\<close>

lemma rnd_pos_eval:
  assumes "0 < q" "exponent q = e" "- 1022 \<le> e"
    and "round_half_even (q / 2 powi (e - 52)) = n"
    and "of_int n * 2 powi (e - 52) = r" "r < 2 ^ 1024"
  shows "rnd q = Num r"
proof -
  have "max (exponent q) (- 1022) = e" using assms(2,3) by simp
  then show ?thesis
    using assms(1,4,5,6) by (simp add: rnd_def Let_def abs_of_pos)
qed

lemma rnd_neg_eval:
  assumes "q < 0" "rnd (- q) = Num r"
  shows "rnd q = Num (- r)"
  using assms by (simp add: rnd_def Let_def abs_of_neg abs_of_pos split: if_splits)

lemma floor_rat_numeral: "\<lfloor>numeral a / numeral b :: rat\<rfloor> = numeral a div numeral b"
  by (metis floor_divide_of_int_eq of_int_numeral)

section \<open>Doubles met in the examples\<close>

lemmas rnd_eval_simps = exponent_def exp_down_stop exp_down_step exp_up_stop exp_up_step
  round_half_even_def Let_def floor_rat_numeral

lemma rnd_80_100_quotient: "rnd (4 / 5) = Num (3602879701896397 / 4503599627370496)"
  by (rule rnd_pos_eval [where e = "- 1" and n = 7205759403792794]) (simp_all add: rnd_eval_simps)

lemma rnd_80_100_rest: "rnd (900719925474099 / 4503599627370496) = Num (900719925474099 / 4503599627370496)"
  by (rule rnd_pos_eval [where e = "- 3" and n = 7205759403792792]) (simp_all add: rnd_eval_simps)

lemma rnd_80_100_percent: "rnd (22517998136852475 / 1125899906842624) = Num (5629499534213119 / 281474976710656)"
  by (rule rnd_pos_eval [where e = 4 and n = 5629499534213119]) (simp_all add: rnd_eval_simps)

lemma rnd_27_40_quotient: "rnd (27 / 40) = Num (3039929748475085 / 4503599627370496)"
  by (rule rnd_pos_eval [where e = "- 1" and n = 6079859496950170]) (simp_all add: rnd_eval_simps)

lemma rnd_27_40_rest: "rnd (1463669878895411 / 4503599627370496) = Num (1463669878895411 / 4503599627370496)"
  by (rule rnd_pos_eval [where e = "- 2" and n = 5854679515581644]) (simp_all add: rnd_eval_simps)

lemma rnd_27_40_percent: "rnd (36591746972385275 / 1125899906842624) = Num (4573968371548159 / 140737488355328)"
  by (rule rnd_pos_eval [where e = 5 and n = 4573968371548159]) (simp_all add: rnd_eval_simps)

lemma rnd_1: "rnd 1 = Num 1"
  by (rule rnd_pos_eval [where e = 0 and n = 4503599627370496]) (simp_all add: rnd_eval_simps)

lemma rnd_2: "rnd 2 = Num 2"
  by (rule rnd_pos_eval [where e = 1 and n = 4503599627370496]) (simp_all add: rnd_eval_simps)

lemma rnd_80: "rnd 80 = Num 80"
  by (rule rnd_pos_eval [where e = 6 and n = 5629499534213120]) (simp_all add: rnd_eval_simps)

lemma rnd_100: "rnd 100 = Num 100"
  by (rule rnd_pos_eval [where e = 6 and n = 7036874417766400]) (simp_all add: rnd_eval_simps)

lemma rnd_200: "rnd 200 = Num 200"
  by (rule rnd_pos_eval [where e = 7 and n = 7036874417766400]) (simp_all add: rnd_eval_simps)

lemma rnd_19_99: "rnd (1999 / 100) = Num (5626684784446013 / 281474976710656)"
  by (rule rnd_pos_eval [where e = 4 and n = 5626684784446013]) (simp_all add: rnd_eval_simps)

lemma rnd_1_005: "rnd (201 / 200) = Num (1131529406376837 / 1125899906842624)"
  by (rule rnd_pos_eval [where e = 0 and n = 4526117625507348]) (simp_all add: rnd_eval_simps)

lemma rnd_minus_1: "rnd (- 1) = Num (- 1)"
  using rnd_neg_eval [of "- 1" 1] by (simp add: rnd_1)

section \<open>Properties of the price functions\<close>

lemma parseFloat_cases: "parseFloat s = NaN \<or> (\<exists>q. 0 \<le> q \<and> parseFloat s = rnd q)"
proof -
  have a: "\<exists>q. 0 \<le> q \<and> rnd (of_nat n) = rnd q" for n :: nat
    by (rule exI [of _ "of_nat n"]) simp
  have b: "\<exists>q. 0 \<le> q \<and> rnd (of_nat n + of_nat m / 10 ^ k) = rnd q" for n m k :: nat
    by (rule exI [of _ "of_nat n + of_nat m / 10 ^ k"]) simp
  show ?thesis
    unfolding parseFloat_def Let_def
    by (simp add: a b split: list.split)
qed

lemma numeric_string_cases:
  "numeric (JStr s) = NaN \<or> numeric (JStr s) = PosInf \<or>
   (\<exists>x. numeric (JStr s) = Num x \<and> 0 \<le> x)"
proof -
  have "numeric (JStr s) = parseFloat (strip_non_numeric s)" by (simp add: numeric_def)
  with parseFloat_cases [of "strip_non_numeric s"] rnd_nonneg show ?thesis by metis
qed

lemma math_round_range:
  assumes "0 \<le> m" "m \<le> 100"
  shows "\<exists>n. math_round (Num m) = Num (of_int n) \<and> 0 \<le> n \<and> n \<le> 100"
proof -
  have "0 \<le> \<lfloor>m + 1 / 2\<rfloor>" using assms(1) by simp
  moreover have "\<lfloor>m + 1 / 2\<rfloor> \<le> 100" using assms(2) by (simp add: floor_le_iff)
  ultimately show ?thesis by simp
qed

lemma math_round_nonneg:
  assumes "0 \<le> m"
  shows "\<exists>n. math_round (Num m) = Num (of_int n) \<and> 0 \<le> n"
proof -
  have "0 \<le> \<lfloor>m + 1 / 2\<rfloor>" using assms by simp
  then show ?thesis by simp
qed

text \<open>Behind the guard, with a current price that is not negative: every rounding
  stays between the doubles 0 and 1, then between 0 and 100.\<close>

lemma discount_range:
  assumes "0 \<le> x" "x < y"
  shows "\<exists>n. math_round (js_mul (js_sub (Num 1) (js_div (Num x) (Num y))) (Num 100)) =
              Num (of_int n) \<and> 0 \<le> n \<and> n \<le> 100"
proof -
  from assms have y: "0 < y" by simp
  have "0 \<le> x / y" "x / y \<le> of_nat 1" using assms y by simp_all
  from rnd_bounds [OF this] obtain d where d: "rnd (x / y) = Num d" "0 \<le> d" "d \<le> 1"
    by auto
  have "0 \<le> 1 - d" "1 - d \<le> of_nat 1" using d by simp_all
  from rnd_bounds [OF this] obtain r where r: "rnd (1 - d) = Num r" "0 \<le> r" "r \<le> 1"
    by auto
  have "0 \<le> r * 100" "r * 100 \<le> of_nat 100" using r by simp_all
  from rnd_bounds [OF this] obtain m where m: "rnd (r * 100) = Num m" "0 \<le> m" "m \<le> 100"
    by auto
  have "js_mul (js_sub (Num 1) (js_div (Num x) (Num y))) (Num 100) = Num m"
    using y d(1) r(1) m(1) by simp
  with math_round_range [OF m(2,3)] show ?thesis by simp
qed

text \<open>Behind the guard, with a negative current price: the quotient is not positive,
  and what is rounded next is never negative; it can overflow.\<close>

lemma discount_sign:
  assumes "x < 0" "0 < y"
  shows "math_round (js_mul (js_sub (Num 1) (js_div (Num x) (Num y))) (Num 100)) = PosInf \<or>
         (\<exists>n. math_round (js_mul (js_sub (Num 1) (js_div (Num x) (Num y))) (Num 100)) =
               Num (of_int n) \<and> 0 \<le> n)"
proof -
  have q: "x / y \<le> 0" using assms by (simp add: divide_le_0_iff)
  have div: "js_div (Num x) (Num y) = rnd (x / y)" using assms by simp
  from rnd_nonpos [OF q] show ?thesis
  proof
    assume "rnd (x / y) = NegInf"
    then show ?thesis unfolding div by simp
  next
    assume "\<exists>d. rnd (x / y) = Num d \<and> d \<le> 0"
    then obtain d where d: "rnd (x / y) = Num d" "d \<le> 0" by blast
    then have sub: "js_sub (Num 1) (js_div (Num x) (Num y)) = rnd (1 - d)"
      unfolding div by simp
    have "0 \<le> 1 - d" using d(2) by simp
    from rnd_nonneg [OF this] show ?thesis
    proof
      assume "rnd (1 - d) = PosInf"
      then show ?thesis unfolding sub by simp
    next
      assume "\<exists>r. rnd (1 - d) = Num r \<and> 0 \<le> r"
      then obtain r where r: "rnd (1 - d) = Num r" "0 \<le> r" by blast
      then have mul: "js_mul (js_sub (Num 1) (js_div (Num x) (Num y))) (Num 100) = rnd (r * 100)"
        unfolding sub by simp
      have "0 \<le> r * 100" using r(2) by simp
      from rnd_nonneg [OF this] show ?thesis
      proof
        assume "rnd (r * 100) = PosInf"
        then show ?thesis unfolding mul by simp
      next
        assume "\<exists>m. rnd (r * 100) = Num m \<and> 0 \<le> m"
        then obtain m where m: "rnd (r * 100) = Num m" "0 \<le> m" by blast
        from math_round_nonneg [OF m(2)] show ?thesis unfolding mul m(1) by blast
      qed
    qed
  qed
qed

text \<open>An infinite original price passes the guard with every finite current price.\<close>

lemma discount_of_infinity:
  "math_round (js_mul (js_sub (Num 1) (js_div (Num x) PosInf)) (Num 100)) = Num 100"
  by (simp add: rnd_1 rnd_100 floor_rat_numeral)

lemma calculateDiscount_unguarded:
  assumes "\<not> (js_less (Num 0) (numeric orig) \<and> js_less (numeric cur) (numeric orig))"
  shows "calculateDiscount cur orig = Num 0"
  using assms by (auto simp: calculateDiscount_def Let_def)

lemma calculateDiscount_guarded:
  assumes "js_less (Num 0) (numeric orig)" "js_less (numeric cur) (numeric orig)"
  shows "calculateDiscount cur orig =
           math_round (js_mul (js_sub (Num 1) (js_div (numeric cur) (numeric orig))) (Num 100))"
  using assms by (simp add: calculateDiscount_def Let_def)

lemma calculateDiscount_in_range:
  assumes "js_less (Num 0) (numeric orig)" "js_less (numeric cur) (numeric orig)"
    and "numeric cur = Num x" "0 \<le> x"
  shows "\<exists>n. calculateDiscount cur orig = Num (of_int n) \<and> 0 \<le> n \<and> n \<le> 100"
proof (cases "numeric orig")
  case NaN
  with assms(1) show ?thesis by simp
next
  case NegInf
  with assms(1) show ?thesis by simp
next
  case PosInf
  have "calculateDiscount cur orig = Num 100"
    unfolding calculateDiscount_guarded [OF assms(1,2)] assms(3) PosInf
    by (rule discount_of_infinity)
  then have "calculateDiscount cur orig = Num (of_int 100)" by simp
  then show ?thesis by fastforce
next
  case (Num y)
  with assms have y: "x < y" by simp
  have eq: "calculateDiscount cur orig =
              math_round (js_mul (js_sub (Num 1) (js_div (Num x) (Num y))) (Num 100))"
    unfolding calculateDiscount_guarded [OF assms(1,2)] assms(3) Num ..
  from discount_range [OF assms(4) y] show ?thesis unfolding eq .
qed

lemma calculateDiscount_finite:
  assumes "js_less (Num 0) (numeric orig)" "js_less (numeric cur) (numeric orig)"
    and "numeric cur = Num x"
  shows "calculateDiscount cur orig = PosInf \<or>
         (\<exists>n. calculateDiscount cur orig = Num (of_int n) \<and> 0 \<le> n)"
proof (cases "0 \<le> x")
  case True
  from calculateDiscount_in_range [OF assms True] show ?thesis by blast
next
  case False
  then have neg: "x < 0" by simp
  show ?thesis
  proof (cases "numeric orig")
    case NaN
    with assms(1) show ?thesis by simp
  next
    case NegInf
    with assms(1) show ?thesis by simp
  next
    case PosInf
    have "calculateDiscount cur orig = Num 100"
      unfolding calculateDiscount_guarded [OF assms(1,2)] assms(3) PosInf
      by (rule discount_of_infinity)
    then have "calculateDiscount cur orig = Num (of_int 100)" by simp
    then show ?thesis by fastforce
  next
    case (Num y)
    with assms have y: "0 < y" by simp
    have eq: "calculateDiscount cur orig =
                math_round (js_mul (js_sub (Num 1) (js_div (Num x) (Num y))) (Num 100))"
      unfolding calculateDiscount_guarded [OF assms(1,2)] assms(3) Num ..
    from discount_sign [OF neg y] show ?thesis unfolding eq .
  qed
qed

lemma calculateDiscount_strings:
  "\<exists>n. calculateDiscount (JStr s) (JStr t) = Num (of_int n) \<and> 0 \<le> n \<and> n \<le> 100"
proof (cases "js_less (Num 0) (numeric (JStr t)) \<and> js_less (numeric (JStr s)) (numeric (JStr t))")
  case False
  then have "calculateDiscount (JStr s) (JStr t) = Num (of_int 0)"
    by (simp add: calculateDiscount_unguarded)
  then show ?thesis by fastforce
next
  case True
  then have g: "js_less (Num 0) (numeric (JStr t))" "js_less (numeric (JStr s)) (numeric (JStr t))"
    by blast+
  from numeric_string_cases [of s] g(2) obtain x where x: "numeric (JStr s) = Num x" "0 \<le> x"
    by (cases "numeric (JStr t)") auto
  from g x show ?thesis by (rule calculateDiscount_in_range)
qed

lemma calculateDiscount_zero:
  assumes "numeric cur = Num x" "numeric orig = Num y" "y \<le> 0 \<or> y \<le> x"
  shows "calculateDiscount cur orig = Num 0"
  using assms by (auto simp: calculateDiscount_def)

lemma calculateDiscount_nan:
  assumes "numeric orig = NaN \<or> numeric cur = NaN"
  shows "calculateDiscount cur orig = Num 0"
  using assms by (auto simp: calculateDiscount_def Let_def)

lemma calculateDiscount_80_100: "calculateDiscount (JNum (Num 80)) (JNum (Num 100)) = Num 20"
  by (simp add: calculateDiscount_def numeric_def rnd_80_100_quotient rnd_80_100_rest
      rnd_80_100_percent floor_rat_numeral)

text \<open>
  The quotient, the difference and the product are rounded one after the other, and the
  result can differ from the rounding of the exact percentage: for 27 and 40 the exact
  value is 32.5, which rounds to 33, and the script computes
  \<^verbatim>\<open>(1 - 0.675) * 100 = 32.49999999999999\<close> and returns 32.
\<close>

lemma calculateDiscount_27_40:
  "calculateDiscount (JNum (Num 27)) (JNum (Num 40)) = Num 32 \<and>
   \<lfloor>(1 - 27 / 40) * 100 + 1 / 2 :: rat\<rfloor> = 33"
  by (simp add: calculateDiscount_def numeric_def rnd_27_40_quotient rnd_27_40_rest
      rnd_27_40_percent floor_rat_numeral)

lemma stripped_prices:
  "strip_non_numeric ''$80'' = ''80'' \<and> strip_non_numeric ''$100'' = ''100'' \<and>
   strip_non_numeric ''USD 80'' = ''80'' \<and> strip_non_numeric ''$19.99'' = ''19.99'' \<and>
   strip_non_numeric ''1.005'' = ''1.005''"
  by code_simp

lemmas parse_simps = parseFloat_def is_digit_def digits_value_def digit_value_def

lemma numeric_80: "numeric (JStr ''$80'') = Num 80"
  by (simp add: numeric_def stripped_prices parse_simps rnd_80)

lemma numeric_100: "numeric (JStr ''$100'') = Num 100"
  by (simp add: numeric_def stripped_prices parse_simps rnd_100)

text \<open>
  C1 (as the code has it). \<^verbatim>\<open>calculateDiscount\<close> returns 0 when the numeric value of
  either price is \<open>NaN\<close>, when the original is not greater than 0, and when the current
  price is not less than the original. Otherwise it returns \<^verbatim>\<open>Math.round\<close> of
  \<open>(1 - current/original) * 100\<close> as the script computes it, in doubles, the quotient,
  the difference and the product each rounded to the nearest double. With a finite
  current price the result is then an integer that is never negative, or \<open>Infinity\<close>;
  it is an integer in 0..100 when the current price is not negative. The numeric value
  of a string is never negative (its sign is stripped), so two strings always give an
  integer in 0..100. \<open>calculateDiscount(80, 100)\<close> is 20.
\<close>

theorem calculateDiscount_spec:
  "(numeric orig = NaN \<or> numeric cur = NaN \<longrightarrow> calculateDiscount cur orig = Num 0) \<and>
   (\<forall>x y. numeric cur = Num x \<and> numeric orig = Num y \<and> (y \<le> 0 \<or> y \<le> x) \<longrightarrow>
      calculateDiscount cur orig = Num 0) \<and>
   (\<not> (js_less (Num 0) (numeric orig) \<and> js_less (numeric cur) (numeric orig)) \<longrightarrow>
      calculateDiscount cur orig = Num 0) \<and>
   (js_less (Num 0) (numeric orig) \<and> js_less (numeric cur) (numeric orig) \<longrightarrow>
      calculateDiscount cur orig =
        math_round (js_mul (js_sub (Num 1) (js_div (numeric cur) (numeric orig))) (Num 100))) \<and>
   (\<forall>x. js_less (Num 0) (numeric orig) \<and> js_less (numeric cur) (numeric orig) \<and>
        numeric cur = Num x \<longrightarrow>
      calculateDiscount cur orig = PosInf \<or>
      (\<exists>n. calculateDiscount cur orig = Num (of_int n) \<and> 0 \<le> n)) \<and>
   (\<forall>x. js_less (Num 0) (numeric orig) \<and> js_less (numeric cur) (numeric orig) \<and>
        numeric cur = Num x \<and> 0 \<le> x \<longrightarrow>
      (\<exists>n. calculateDiscount cur orig = Num (of_int n) \<and> 0 \<le> n \<and> n \<le> 100)) \<and>
   (\<forall>s. numeric (JStr s) = NaN \<or> numeric (JStr s) = PosInf \<or>
        (\<exists>x. numeric (JStr s) = Num x \<and> 0 \<le> x)) \<and>
   (\<forall>s t. \<exists>n. calculateDiscount (JStr s) (JStr t) = Num (of_int n) \<and> 0 \<le> n \<and> n \<le> 100) \<and>
   calculateDiscount (JNum (Num 80)) (JNum (Num 100)) = Num 20"
proof (intro conjI allI impI)
  assume "numeric orig = NaN \<or> numeric cur = NaN"
  then show "calculateDiscount cur orig = Num 0" by (rule calculateDiscount_nan)
next
  fix x y
  assume "numeric cur = Num x \<and> numeric orig = Num y \<and> (y \<le> 0 \<or> y \<le> x)"
  then show "calculateDiscount cur orig = Num 0" by (blast intro: calculateDiscount_zero)
next
  assume "\<not> (js_less (Num 0) (numeric orig) \<and> js_less (numeric cur) (numeric orig))"
  then show "calculateDiscount cur orig = Num 0" by (rule calculateDiscount_unguarded)
next
  assume "js_less (Num 0) (numeric orig) \<and> js_less (numeric cur) (numeric orig)"
  then show "calculateDiscount cur orig =
      math_round (js_mul (js_sub (Num 1) (js_div (numeric cur) (numeric orig))) (Num 100))"
    by (simp add: calculateDiscount_guarded)
next
  fix x
  assume h: "js_less (Num 0) (numeric orig) \<and> js_less (numeric cur) (numeric orig) \<and>
             numeric cur = Num x"
  then have g: "js_less (Num 0) (numeric orig)" "js_less (numeric cur) (numeric orig)"
    and x: "numeric cur = Num x" by blast+
  show "calculateDiscount cur orig = PosInf \<or>
     (\<exists>n. calculateDiscount cur orig = Num (of_int n) \<and> 0 \<le> n)"
    by (rule calculateDiscount_finite [OF g x])
next
  fix x
  assume h: "js_less (Num 0) (numeric orig) \<and> js_less (numeric cur) (numeric orig) \<and>
             numeric cur = Num x \<and> 0 \<le> x"
  then have g: "js_less (Num 0) (numeric orig)" "js_less (numeric cur) (numeric orig)"
    and x: "numeric cur = Num x" "0 \<le> x" by blast+
  show "\<exists>n. calculateDiscount cur orig = Num (of_int n) \<and> 0 \<le> n \<and> n \<le> 100"
    by (rule calculateDiscount_in_range [OF g x])
next
  fix s
  show "numeric (JStr s) = NaN \<or> numeric (JStr s) = PosInf \<or>
        (\<exists>x. numeric (JStr s) = Num x \<and> 0 \<le> x)"
    by (rule numeric_string_cases)
next
  fix s t
  show "\<exists>n. calculateDiscount (JStr s) (JStr t) = Num (of_int n) \<and> 0 \<le> n \<and> n \<le> 100"
    by (rule calculateDiscount_strings)
next
  show "calculateDiscount (JNum (Num 80)) (JNum (Num 100)) = Num 20"
    by (rule calculateDiscount_80_100)
qed

text \<open>The theorem at the prices \<^verbatim>\<open>"$80"\<close> and \<^verbatim>\<open>"$100"\<close>: the guard holds, and the
  discount is the rounded value of the script's expression, an integer within 0..100.\<close>

theorem calculateDiscount_spec_witness:
  "numeric (JStr ''$80'') = Num 80 \<and> numeric (JStr ''$100'') = Num 100 \<and>
   js_less (Num 0) (numeric (JStr ''$100'')) \<and>
   js_less (numeric (JStr ''$80'')) (numeric (JStr ''$100'')) \<and>
   calculateDiscount (JStr ''$80'') (JStr ''$100'') =
     math_round (js_mul (js_sub (Num 1)
       (js_div (numeric (JStr ''$80'')) (numeric (JStr ''$100'')))) (Num 100)) \<and>
   (\<exists>n. calculateDiscount (JStr ''$80'') (JStr ''$100'') = Num (of_int n) \<and> 0 \<le> n \<and> n \<le> 100)"
proof -
  have a: "numeric (JStr ''$80'') = Num 80" by (rule numeric_80)
  have b: "numeric (JStr ''$100'') = Num 100" by (rule numeric_100)
  have c: "js_less (Num 0) (numeric (JStr ''$100'')) \<and>
           js_less (numeric (JStr ''$80'')) (numeric (JStr ''$100''))"
    by (simp add: a b)
  have d: "(0::rat) \<le> 80" by simp
  from calculateDiscount_spec [of "JStr ''$100''" "JStr ''$80''"] a b c d
  show ?thesis by blast
qed

text \<open>
  The claim as stated promises an integer in 0..100 for every pair of inputs. A
  negative current price passes the guard and gives more than 100:
  \<open>calculateDiscount(-100, 100)\<close> is 200. With the current price \<open>-Infinity\<close> and the
  original price \<open>Infinity\<close> the guard holds as well, and the result is \<open>NaN\<close>.
\<close>

theorem calculateDiscount_range_counterexample:
  "numeric (JNum (Num (- 100))) = Num (- 100) \<and> numeric (JNum (Num 100)) = Num 100 \<and>
   js_less (Num 0) (Num 100) \<and> js_less (Num (- 100)) (Num 100) \<and>
   calculateDiscount (JNum (Num (- 100))) (JNum (Num 100)) = Num 200 \<and>
   calculateDiscount (JNum NegInf) (JNum PosInf) = NaN"
  by (simp add: calculateDiscount_def numeric_def rnd_minus_1 rnd_2 rnd_200 floor_rat_numeral)

text \<open>
  C2 (the code at the failing input). The claim has \<^verbatim>\<open>extractCurrentPrice\<close> return
  \<^verbatim>\<open>0.00\<close> whenever the stripped text is no number. The string branch prints the
  \<open>NaN\<close> that \<^verbatim>\<open>parseFloat\<close> returns: for \<^verbatim>\<open>"N/A"\<close> the stripped text is empty and
  the result is the text \<^verbatim>\<open>NaN\<close>. The fallback \<^verbatim>\<open>0.00\<close> of the last line is reached
  only by a value that is neither a string nor a number.
\<close>

theorem extractCurrentPrice_unparsable:
  "strip_non_numeric ''N/A'' = [] \<and> parseFloat [] = NaN \<and>
   extractCurrentPrice (JStr ''N/A'') = Txt ''NaN'' \<and>
   extractCurrentPrice (JStr ''N/A'') \<noteq> Txt ''0.00'' \<and>
   extractCurrentPrice JUndefined = Txt ''0.00''"
  by code_simp

text \<open>Where the text parses, the string branch does what the claim says: the symbols
  are stripped and the value is printed with two decimals. The decimals are those of
  the double that was parsed: the double nearest to 1.005 lies below it and prints as
  \<^verbatim>\<open>1.00\<close>.\<close>

lemma extractCurrentPrice_examples:
  "extractCurrentPrice (JStr ''USD 80'') = Txt ''80.00'' \<and>
   extractCurrentPrice (JStr ''$19.99'') = Txt ''19.99'' \<and>
   extractCurrentPrice (JStr ''1.005'') = Txt ''1.00''"
proof -
  have p1: "parseFloat ''80'' = Num 80" by (simp add: parse_simps rnd_80)
  have p2: "parseFloat ''19.99'' = Num (5626684784446013 / 281474976710656)"
    by (simp add: parse_simps rnd_19_99)
  have p3: "parseFloat ''1.005'' = Num (1131529406376837 / 1125899906842624)"
    by (simp add: parse_simps rnd_1_005)
  have t1: "toFixed2 (Num 80) = Txt ''80.00''"
    by (simp add: toFixed2_def floor_rat_numeral)
  have t2: "toFixed2 (Num (5626684784446013 / 281474976710656)) = Txt ''19.99''"
    by (simp add: toFixed2_def floor_rat_numeral)
  have t3: "toFixed2 (Num (1131529406376837 / 1125899906842624)) = Txt ''1.00''"
    by (simp add: toFixed2_def floor_rat_numeral)
  show ?thesis
    by (simp only: extractCurrentPrice_def jsval.case stripped_prices p1 p2 p3 t1 t2 t3 simp_thms)
qed

lemma extractCurrentPrice_string:
  "extractCurrentPrice (JStr s) = toFixed2 (parseFloat (strip_non_numeric s))"
  by (simp add: extractCurrentPrice_def)

section \<open>Properties of the price view\<close>

lemma formatPriceDisplay_sale:
  assumes "truthy (original_price p)" "strict_neq (original_price p) (price p)"
  shows "formatPriceDisplay p =
           SaleBadge (price p) (calculateDiscount (price p) (original_price p))
             (case original_price p of
                JStr s \<Rightarrow> Verbatim s
              | v \<Rightarrow> Dollar (toFixed2 (numeric v)))"
  using assms by (simp add: formatPriceDisplay_def Let_def)

lemma formatPriceDisplay_plain:
  assumes "\<not> (truthy (original_price p) \<and> strict_neq (original_price p) (price p))"
  shows "formatPriceDisplay p = PlainBadge (price p)"
  using assms by (auto simp: formatPriceDisplay_def)

lemma discount_80_100_strings: "calculateDiscount (JStr ''$80'') (JStr ''$100'') = Num 20"
proof -
  have "calculateDiscount (JStr ''$80'') (JStr ''$100'') =
        calculateDiscount (JNum (Num 80)) (JNum (Num 100))"
    unfolding calculateDiscount_def numeric_80 numeric_100 by (simp add: numeric_def)
  then show ?thesis by (simp only: calculateDiscount_80_100)
qed

text \<open>
  C3 (as the code has it). \<^verbatim>\<open>formatPriceDisplay\<close> builds the sale view (the raw price with
  the percentage, over the struck-through original) exactly when \<^verbatim>\<open>original_price\<close> is
  truthy (present, and neither the empty string nor 0 nor \<open>NaN\<close>) and differs from
  \<^verbatim>\<open>price\<close> under \<^verbatim>\<open>!==\<close>; otherwise it builds the plain badge of the raw \<^verbatim>\<open>price\<close>
  field. A product with price \<^verbatim>\<open>"$80"\<close> and original price \<^verbatim>\<open>"$100"\<close> gets the sale view
  with 20 percent and the struck-through text \<^verbatim>\<open>"$100"\<close>.
\<close>

theorem formatPriceDisplay_spec:
  "((\<exists>v d t. formatPriceDisplay p = SaleBadge v d t) \<longleftrightarrow>
      truthy (original_price p) \<and> strict_neq (original_price p) (price p)) \<and>
   (truthy (original_price p) \<and> strict_neq (original_price p) (price p) \<longrightarrow>
      formatPriceDisplay p =
        SaleBadge (price p) (calculateDiscount (price p) (original_price p))
          (case original_price p of
             JStr s \<Rightarrow> Verbatim s
           | v \<Rightarrow> Dollar (toFixed2 (numeric v)))) \<and>
   (\<not> (truthy (original_price p) \<and> strict_neq (original_price p) (price p)) \<longrightarrow>
      formatPriceDisplay p = PlainBadge (price p)) \<and>
   (price p = JStr ''$80'' \<and> original_price p = JStr ''$100'' \<longrightarrow>
      formatPriceDisplay p = SaleBadge (JStr ''$80'') (Num 20) (Verbatim ''$100''))"
proof (intro conjI impI)
  show "(\<exists>v d t. formatPriceDisplay p = SaleBadge v d t) \<longleftrightarrow>
          truthy (original_price p) \<and> strict_neq (original_price p) (price p)"
    by (cases "truthy (original_price p) \<and> strict_neq (original_price p) (price p)")
       (simp_all add: formatPriceDisplay_sale formatPriceDisplay_plain)
next
  assume "truthy (original_price p) \<and> strict_neq (original_price p) (price p)"
  then show "formatPriceDisplay p =
        SaleBadge (price p) (calculateDiscount (price p) (original_price p))
          (case original_price p of
             JStr s \<Rightarrow> Verbatim s
           | v \<Rightarrow> Dollar (toFixed2 (numeric v)))"
    by (simp add: formatPriceDisplay_sale)
next
  assume "\<not> (truthy (original_price p) \<and> strict_neq (original_price p) (price p))"
  then show "formatPriceDisplay p = PlainBadge (price p)"
    by (rule formatPriceDisplay_plain)
next
  assume h: "price p = JStr ''$80'' \<and> original_price p = JStr ''$100''"
  then have "truthy (original_price p)" "strict_neq (original_price p) (price p)"
    by simp_all
  then show "formatPriceDisplay p = SaleBadge (JStr ''$80'') (Num 20) (Verbatim ''$100'')"
    using h by (simp add: formatPriceDisplay_sale discount_80_100_strings)
qed

text \<open>The theorem at the example product of the specification.\<close>

theorem formatPriceDisplay_spec_witness:
  "price speaker = JStr ''$80'' \<and> original_price speaker = JStr ''$100'' \<and>
   truthy (original_price speaker) \<and> strict_neq (original_price speaker) (price speaker) \<and>
   formatPriceDisplay speaker = SaleBadge (JStr ''$80'') (Num 20) (Verbatim ''$100'')"
proof -
  have a: "price speaker = JStr ''$80'' \<and> original_price speaker = JStr ''$100''"
    by (simp add: speaker_def)
  have b: "truthy (original_price speaker) \<and> strict_neq (original_price speaker) (price speaker)"
    by (simp add: speaker_def)
  from formatPriceDisplay_spec [of speaker] a b show ?thesis by blast
qed

text \<open>
  The claim as stated has the sale view whenever \<^verbatim>\<open>original_price\<close> is present and
  differs from \<^verbatim>\<open>price\<close>. An original price of 0, or the empty string, is present and
  differs from the price \<^verbatim>\<open>"$80"\<close>, and the view is the plain badge.
\<close>

theorem formatPriceDisplay_present_counterexample:
  "original_price (speaker\<lparr>original_price := JNum (Num 0)\<rparr>) \<noteq> JUndefined \<and>
   strict_neq (original_price (speaker\<lparr>original_price := JNum (Num 0)\<rparr>))
     (price (speaker\<lparr>original_price := JNum (Num 0)\<rparr>)) \<and>
   formatPriceDisplay (speaker\<lparr>original_price := JNum (Num 0)\<rparr>) = PlainBadge (JStr ''$80'') \<and>
   original_price (speaker\<lparr>original_price := JStr ''''\<rparr>) \<noteq> JUndefined \<and>
   strict_neq (original_price (speaker\<lparr>original_price := JStr ''''\<rparr>))
     (price (speaker\<lparr>original_price := JStr ''''\<rparr>)) \<and>
   formatPriceDisplay (speaker\<lparr>original_price := JStr ''''\<rparr>) = PlainBadge (JStr ''$80'')"
  by (simp add: speaker_def formatPriceDisplay_def)

section \<open>Properties of the product details\<close>

lemma add_line_eq:
  "add_line mk v ds = ds @ (if text_shown v then [mk (the_text v)] else [])"
  by (simp add: add_line_def text_shown_def the_text_def split: option.splits)

lemma concat_replicate_single: "concat (replicate n [x]) = replicate n x"
  by (induction n) simp_all

lemma rating_line_in_range:
  assumes "0 \<le> r" "r \<le> 5" "r \<noteq> 0"
  shows "rating_line (Some r) = Inr [RatingLine (star_scale r) r]"
proof -
  have lo: "0 \<le> \<lfloor>r\<rfloor>" using assms(1) by simp
  have hi: "\<lfloor>r\<rfloor> \<le> 5" using assms(2) by (simp add: floor_le_iff)
  have black: "js_repeat [BlackStar] \<lfloor>r\<rfloor> = Inr (replicate (nat \<lfloor>r\<rfloor>) BlackStar)"
    using lo by (simp add: js_repeat_def concat_replicate_single)
  have n: "nat (5 - \<lfloor>r\<rfloor>) = 5 - nat \<lfloor>r\<rfloor>" using lo hi by linarith
  have white: "js_repeat [WhiteStar] (5 - \<lfloor>r\<rfloor>) = Inr (replicate (5 - nat \<lfloor>r\<rfloor>) WhiteStar)"
    using hi by (simp add: js_repeat_def concat_replicate_single n)
  show ?thesis
    using assms(3) by (simp add: rating_line_def black white star_scale_def)
qed

lemma rating_line_spec:
  assumes "rating_in_range p"
  shows "rating_line (rating p) =
           Inr (if field_shown p Rating then [field_line p Rating] else [])"
proof (cases "rating p")
  case None
  then show ?thesis by (simp add: rating_line_def)
next
  case (Some r)
  show ?thesis
  proof (cases "r = 0")
    case True
    with Some show ?thesis by (simp add: rating_line_def)
  next
    case False
    from assms Some have "0 \<le> r" "r \<le> 5" by (simp_all add: rating_in_range_def)
    with False Some show ?thesis by (simp add: rating_line_in_range)
  qed
qed

lemma getProductDetails_lines:
  assumes "rating_in_range p"
  shows "getProductDetails p = Inr (spec_details p)"
  by (simp add: getProductDetails_def Let_def add_line_eq rating_line_spec [OF assms]
        spec_details_def field_order_def)

lemma star_scale_length:
  assumes "0 \<le> r" "r \<le> 5"
  shows "length (star_scale r) = 5"
proof -
  have "nat \<lfloor>r\<rfloor> \<le> 5" using assms by (simp add: floor_le_iff nat_le_iff)
  then show ?thesis by (simp add: star_scale_def)
qed

lemma star_scale_filled:
  "length (filter (\<lambda>g. g = BlackStar) (star_scale r)) = nat \<lfloor>r\<rfloor>"
  by (simp add: star_scale_def)

lemma spec_details_kinds:
  "spec_details p = [NoDetails] \<or>
   spec_details p = map (field_line p) (filter (field_shown p) field_order)"
  by (simp add: spec_details_def Let_def)

lemma productCard_in_range:
  assumes "rating_in_range p"
  shows "\<exists>c. productCard p = Inr c \<and> card_details c = spec_details p \<and>
             card_description c = spec_description (description p) \<and>
             card_price c = formatPriceDisplay p"
  by (simp add: productCard_def Let_def getProductDetails_lines [OF assms]
        spec_description_def)

text \<open>
  C9 (as the code has it). For every product whose rating, if any, lies in 0..5,
  \<^verbatim>\<open>getProductDetails\<close> returns the lines of the fields category, model, brand, rating,
  warranty, in this order, for exactly those fields whose value is truthy (a text that
  is not empty, a rating that is not 0), and the single line
  \<^verbatim>\<open>No additional details available\<close> when no field is; the rating line shows 5 glyphs
  of which \<open>floor(rating)\<close> are filled; and the card's description is the first 100
  code units followed by \<^verbatim>\<open>...\<close> if and only if the description is longer than 100.
\<close>

theorem getProductDetails_spec:
  "rating_in_range p \<longrightarrow>
     getProductDetails p = Inr (spec_details p) \<and>
     (spec_details p = [NoDetails] \<or>
      spec_details p = map (field_line p) (filter (field_shown p) field_order)) \<and>
     (\<forall>r. rating p = Some r \<longrightarrow>
        length (star_scale r) = 5 \<and>
        length (filter (\<lambda>g. g = BlackStar) (star_scale r)) = nat \<lfloor>r\<rfloor>) \<and>
     (\<exists>c. productCard p = Inr c \<and> card_details c = spec_details p \<and>
          card_description c = spec_description (description p))"
proof (intro impI conjI allI)
  assume ok: "rating_in_range p"
  show "getProductDetails p = Inr (spec_details p)"
    by (rule getProductDetails_lines [OF ok])
  show "spec_details p = [NoDetails] \<or>
        spec_details p = map (field_line p) (filter (field_shown p) field_order)"
    by (rule spec_details_kinds)
  from productCard_in_range [OF ok]
  show "\<exists>c. productCard p = Inr c \<and> card_details c = spec_details p \<and>
          card_description c = spec_description (description p)"
    by blast
  fix r
  assume "rating p = Some r"
  with ok have "0 \<le> r" "r \<le> 5" by (simp_all add: rating_in_range_def)
  then show "length (star_scale r) = 5" by (rule star_scale_length)
  show "length (filter (\<lambda>g. g = BlackStar) (star_scale r)) = nat \<lfloor>r\<rfloor>"
    by (rule star_scale_filled)
qed

text \<open>The theorem at a product with a category, a rating of 4.5 and a warranty: three
  lines in the fixed order, four of the five stars filled.\<close>

theorem getProductDetails_spec_witness:
  "rating_in_range studio_speaker \<and>
   getProductDetails studio_speaker =
     Inr [CategoryLine ''Audio'',
          RatingLine [BlackStar, BlackStar, BlackStar, BlackStar, WhiteStar] (9 / 2),
          WarrantyLine ''1 year'']"
proof -
  have ok: "rating_in_range studio_speaker"
    by (simp add: rating_in_range_def studio_speaker_def)
  have fl: "\<lfloor>9 / 2 :: rat\<rfloor> = 4" by (simp add: floor_eq_iff)
  have stars: "star_scale (9 / 2) = [BlackStar, BlackStar, BlackStar, BlackStar, WhiteStar]"
    by (simp add: star_scale_def fl eval_nat_numeral)
  have "spec_details studio_speaker =
          [CategoryLine ''Audio'', RatingLine (star_scale (9 / 2)) (9 / 2), WarrantyLine ''1 year'']"
    by (simp add: spec_details_def field_order_def studio_speaker_def speaker_def
          text_shown_def the_text_def)
  with getProductDetails_spec [of studio_speaker] ok stars show ?thesis by simp
qed

text \<open>
  The claim as stated includes every field that is present, for every rating in 0..5.
  A rating of 0 is present and in range, and it gets no line: the block is guarded by
  \<^verbatim>\<open>if (product.rating)\<close>. With no other field, the result is the fallback line, which
  is none of the five.
\<close>

theorem getProductDetails_zero_rating_counterexample:
  "rating (speaker\<lparr>rating := Some 0\<rparr>) = Some 0 \<and>
   rating_in_range (speaker\<lparr>rating := Some 0\<rparr>) \<and>
   getProductDetails (speaker\<lparr>rating := Some 0\<rparr>) = Inr [NoDetails]"
  by (simp add: speaker_def rating_in_range_def getProductDetails_def add_line_def
        rating_line_def)

text \<open>Outside 0..5 the star scale cannot be built: \<^verbatim>\<open>repeat\<close> gets a negative count
  and the card throws.\<close>

lemma getProductDetails_rating_7:
  "getProductDetails (speaker\<lparr>rating := Some 7\<rparr>) = Inl RangeError"
  by (simp add: speaker_def getProductDetails_def add_line_def rating_line_def js_repeat_def)

section \<open>Properties of the response data handler\<close>

lemma populated_cases:
  obtains (list) q qs where "products d = Some (q # qs)" "populated d"
        | (none) "products d = None" "\<not> populated d"
        | (empty) "products d = Some []" "\<not> populated d"
proof (cases "products d")
  case None
  then show ?thesis using none by (simp add: populated_def)
next
  case (Some ps)
  then show ?thesis using list empty by (cases ps) (simp_all add: populated_def)
qed

lemma handleResponseData_products:
  "products d = Some (q # qs) \<Longrightarrow> handleResponseData d s = displayProducts (q # qs) s"
  by (simp add: handleResponseData_def)

lemma handleResponseData_rest:
  assumes "\<not> populated d"
  shows "handleResponseData d s =
     (case product d of
        Some q \<Rightarrow> displayProducts [q] s
      | None \<Rightarrow>
          (case order d of
             Some ord \<Rightarrow> (s\<lparr>console := console s @ [OrderLog ord]\<rparr>, None)
           | None \<Rightarrow> (s\<lparr>carousel_hidden := True\<rparr>, None)))"
proof (cases d rule: populated_cases)
  case (list q qs)
  with assms show ?thesis by simp
next
  case none
  then show ?thesis by (simp add: handleResponseData_def)
next
  case empty
  then show ?thesis by (simp add: handleResponseData_def)
qed

lemma handleResponseData_single:
  assumes "\<not> populated d" "product d = Some q"
  shows "handleResponseData d s = displayProducts [q] s"
  using assms(2) by (simp add: handleResponseData_rest [OF assms(1)])

lemma handleResponseData_order:
  assumes "\<not> populated d" "product d = None" "order d = Some ord"
  shows "handleResponseData d s = (s\<lparr>console := console s @ [OrderLog ord]\<rparr>, None)"
  using assms(2,3) by (simp add: handleResponseData_rest [OF assms(1)])

lemma handleResponseData_nothing:
  assumes "\<not> populated d" "product d = None" "order d = None"
  shows "handleResponseData d s = (s\<lparr>carousel_hidden := True\<rparr>, None)"
  using assms(2,3) by (simp add: handleResponseData_rest [OF assms(1)])

lemma handleResponseData_ignores:
  assumes "populated d"
  shows "handleResponseData (d\<lparr>product := x, order := y\<rparr>) s = handleResponseData d s"
proof (cases d rule: populated_cases)
  case (list q qs)
  then show ?thesis by (simp add: handleResponseData_def)
next
  case none
  with assms show ?thesis by simp
next
  case empty
  with assms show ?thesis by simp
qed

text \<open>When every product of the list has its rating in range, no card throws: the
  carousel holds the card of each product, in order, and is shown.\<close>

lemma build_cards_in_range:
  assumes "list_all rating_in_range ps"
  shows "\<exists>cs. build_cards ps acc = (acc @ cs, None) \<and>
              list_all2 (\<lambda>p c. productCard p = Inr c) ps cs"
  using assms
proof (induction ps arbitrary: acc)
  case Nil
  then show ?case by simp
next
  case (Cons p ps)
  from Cons.prems have ok: "rating_in_range p" and rest: "list_all rating_in_range ps"
    by simp_all
  from productCard_in_range [OF ok] obtain c where c: "productCard p = Inr c" by blast
  from Cons.IH [OF rest, of "acc @ [c]"] obtain cs
    where cs: "build_cards ps (acc @ [c]) = ((acc @ [c]) @ cs, None)"
      and all: "list_all2 (\<lambda>p c. productCard p = Inr c) ps cs"
    by blast
  have "build_cards (p # ps) acc = (acc @ (c # cs), None)"
    using c cs by simp
  moreover have "list_all2 (\<lambda>p c. productCard p = Inr c) (p # ps) (c # cs)"
    using c all by simp
  ultimately show ?case by blast
qed

lemma displayProducts_in_range:
  assumes "list_all rating_in_range ps"
  shows "\<exists>cs. displayProducts ps s = (s\<lparr>carousel := cs, carousel_marks := concat (map (card_fragment s) cs),
                 carousel_hidden := False\<rparr>, None) \<and>
              list_all2 (\<lambda>p c. productCard p = Inr c) ps cs"
proof -
  from build_cards_in_range [OF assms, of "[]"] obtain cs
    where cs: "build_cards ps [] = (cs, None)"
      and all: "list_all2 (\<lambda>p c. productCard p = Inr c) ps cs"
    by auto
  from cs have "displayProducts ps s = (s\<lparr>carousel := cs, carousel_marks := concat (map (card_fragment s) cs),
                 carousel_hidden := False\<rparr>, None)"
    by (simp add: displayProducts_def)
  with all show ?thesis by blast
qed

text \<open>
  C4. \<^verbatim>\<open>handleResponseData\<close> resolves one outcome, in this order: a product list that is
  there and not empty is displayed as the carousel; failing that, a single product is
  displayed as a carousel of one; failing that, an order is logged and neither the
  carousel nor its visibility changes; failing all three, the carousel is hidden. With
  a populated product list the fields \<^verbatim>\<open>product\<close> and \<^verbatim>\<open>order\<close> are ignored. Displaying
  products whose ratings are in range puts the card of each product, in order, into the
  carousel, with the elements its markup holds, and shows it.
\<close>

theorem handleResponseData_spec:
  "(\<forall>q qs. products d = Some (q # qs) \<longrightarrow>
      handleResponseData d s = displayProducts (q # qs) s) \<and>
   (\<forall>q. \<not> populated d \<and> product d = Some q \<longrightarrow>
      handleResponseData d s = displayProducts [q] s) \<and>
   (\<forall>ord. \<not> populated d \<and> product d = None \<and> order d = Some ord \<longrightarrow>
      handleResponseData d s = (s\<lparr>console := console s @ [OrderLog ord]\<rparr>, None) \<and>
      carousel (fst (handleResponseData d s)) = carousel s \<and>
      carousel_hidden (fst (handleResponseData d s)) = carousel_hidden s) \<and>
   (\<not> populated d \<and> product d = None \<and> order d = None \<longrightarrow>
      handleResponseData d s = (s\<lparr>carousel_hidden := True\<rparr>, None)) \<and>
   (\<forall>x y. populated d \<longrightarrow>
      handleResponseData (d\<lparr>product := x, order := y\<rparr>) s = handleResponseData d s) \<and>
   (\<forall>ps. list_all rating_in_range ps \<longrightarrow>
      (\<exists>cs. displayProducts ps s = (s\<lparr>carousel := cs, carousel_marks := concat (map (card_fragment s) cs),
                 carousel_hidden := False\<rparr>, None) \<and>
            list_all2 (\<lambda>p c. productCard p = Inr c) ps cs))"
proof (intro conjI allI impI)
  fix q qs
  assume "products d = Some (q # qs)"
  then show "handleResponseData d s = displayProducts (q # qs) s"
    by (rule handleResponseData_products)
next
  fix q
  assume "\<not> populated d \<and> product d = Some q"
  then show "handleResponseData d s = displayProducts [q] s"
    by (simp add: handleResponseData_single)
next
  fix ord
  assume h: "\<not> populated d \<and> product d = None \<and> order d = Some ord"
  then show eq: "handleResponseData d s = (s\<lparr>console := console s @ [OrderLog ord]\<rparr>, None)"
    by (simp add: handleResponseData_order)
  show "carousel (fst (handleResponseData d s)) = carousel s"
    by (simp add: eq)
  show "carousel_hidden (fst (handleResponseData d s)) = carousel_hidden s"
    by (simp add: eq)
next
  assume "\<not> populated d \<and> product d = None \<and> order d = None"
  then show "handleResponseData d s = (s\<lparr>carousel_hidden := True\<rparr>, None)"
    by (simp add: handleResponseData_nothing)
next
  fix x y
  assume "populated d"
  then show "handleResponseData (d\<lparr>product := x, order := y\<rparr>) s = handleResponseData d s"
    by (rule handleResponseData_ignores)
next
  fix ps
  assume "list_all rating_in_range ps"
  then show "\<exists>cs. displayProducts ps s = (s\<lparr>carousel := cs, carousel_marks := concat (map (card_fragment s) cs),
                 carousel_hidden := False\<rparr>, None) \<and>
            list_all2 (\<lambda>p c. productCard p = Inr c) ps cs"
    by (rule displayProducts_in_range)
qed

text \<open>The theorem at a payload with all three fields filled: the list wins, and the
  result is the one of the payload that holds the list alone.\<close>

theorem handleResponseData_spec_witness:
  "products full_payload = Some [speaker] \<and> populated full_payload \<and>
   list_all rating_in_range [speaker] \<and>
   handleResponseData full_payload fresh_page = displayProducts [speaker] fresh_page \<and>
   handleResponseData (full_payload\<lparr>product := None, order := None\<rparr>) fresh_page =
     handleResponseData full_payload fresh_page \<and>
   length (carousel (fst (handleResponseData full_payload fresh_page))) = 1 \<and>
   \<not> carousel_hidden (fst (handleResponseData full_payload fresh_page))"
proof -
  have a: "products full_payload = Some [speaker]" by (simp add: full_payload_def)
  have b: "populated full_payload" by (simp add: populated_def full_payload_def)
  have c: "list_all rating_in_range [speaker]" by (simp add: rating_in_range_def speaker_def)
  note spec = handleResponseData_spec [of full_payload fresh_page]
  from spec a have d: "handleResponseData full_payload fresh_page = displayProducts [speaker] fresh_page"
    by blast
  from spec b have e: "handleResponseData (full_payload\<lparr>product := None, order := None\<rparr>) fresh_page =
     handleResponseData full_payload fresh_page"
    by blast
  from spec c obtain cs
    where f: "displayProducts [speaker] fresh_page =
                (fresh_page\<lparr>carousel := cs,
                   carousel_marks := concat (map (card_fragment fresh_page) cs),
                   carousel_hidden := False\<rparr>, None)"
      and g: "list_all2 (\<lambda>p c. productCard p = Inr c) [speaker] cs"
    by blast
  from g have "length cs = 1" by (auto simp: list_all2_Cons1)
  with a b c d e f show ?thesis by simp
qed

section \<open>Looking an element up by the indicator's id\<close>

lemma remove_id_none: "\<not> list_ex holds_id es \<Longrightarrow> remove_id es = es"
  by (induction es rule: remove_id.induct) simp_all

lemma remove_id_prefix:
  "\<not> list_ex holds_id pre \<Longrightarrow> remove_id (pre @ es) = pre @ remove_id es"
  by (induction pre rule: remove_id.induct) simp_all

lemma no_id_no_indicator:
  "\<not> list_ex holds_id es \<Longrightarrow> filter (\<lambda>e. e = Typing) es = []"
  by (induction es rule: remove_id.induct) simp_all

lemma count_remove_id_le:
  "length (filter (\<lambda>e. e = Typing) (remove_id es)) \<le> length (filter (\<lambda>e. e = Typing) es)"
  by (induction es rule: remove_id.induct) simp_all

lemma count_remove_id:
  "\<not> list_ex holds_id (takeWhile (\<lambda>e. e \<noteq> Typing) es) \<Longrightarrow>
   length (filter (\<lambda>e. e = Typing) (remove_id es)) =
   length (filter (\<lambda>e. e = Typing) es) - 1"
  by (induction es rule: remove_id.induct) simp_all

section \<open>What each handler does to the fields of the page\<close>

lemma fetch_fields:
  "requests (fetch r s) = requests s @ [r]"
  "chat (fetch r s) = chat s"
  "userInput (fetch r s) = userInput s"
  "currentAttachment (fetch r s) = currentAttachment s"
  "sessionId (fetch r s) = sessionId s"
  "fragment (fetch r s) = fragment s"
  by (simp_all add: fetch_def)

lemma addMessageToChat_fields:
  "requests (addMessageToChat r m s) = requests s"
  "userInput (addMessageToChat r m s) = userInput s"
  "currentAttachment (addMessageToChat r m s) = currentAttachment s"
  "sessionId (addMessageToChat r m s) = sessionId s"
  "fragment (addMessageToChat r m s) = fragment s"
  "chat (addMessageToChat r m s) =
     chat s @ [Message r (line_breaks m) (fragment s (in_paragraph (line_breaks m)))]"
  by (simp_all add: addMessageToChat_def Let_def)

lemma showTypingIndicator_fields:
  "requests (showTypingIndicator s) = requests s"
  "userInput (showTypingIndicator s) = userInput s"
  "currentAttachment (showTypingIndicator s) = currentAttachment s"
  "sessionId (showTypingIndicator s) = sessionId s"
  "fragment (showTypingIndicator s) = fragment s"
  "chat (showTypingIndicator s) = chat s @ [Typing]"
  by (simp_all add: showTypingIndicator_def)

lemma removeTypingIndicator_fields:
  "requests (removeTypingIndicator s) = requests s"
  "userInput (removeTypingIndicator s) = userInput s"
  "currentAttachment (removeTypingIndicator s) = currentAttachment s"
  "sessionId (removeTypingIndicator s) = sessionId s"
  "fragment (removeTypingIndicator s) = fragment s"
  by (simp_all add: removeTypingIndicator_def)

text \<open>Whatever the lookup finds, the chat afterwards is the chat without its first
  element of that id: when it has none, it is left as it was.\<close>

lemma chat_removeTypingIndicator: "chat (removeTypingIndicator s) = remove_id (chat s)"
  by (simp add: removeTypingIndicator_def remove_id_none)

lemma displayProducts_fields:
  "requests (fst (displayProducts ps s)) = requests s"
  "userInput (fst (displayProducts ps s)) = userInput s"
  "currentAttachment (fst (displayProducts ps s)) = currentAttachment s"
  "sessionId (fst (displayProducts ps s)) = sessionId s"
  "fragment (fst (displayProducts ps s)) = fragment s"
  "chat (fst (displayProducts ps s)) = chat s"
  by (simp_all add: displayProducts_def split: prod.splits option.splits)

lemma handleResponseData_fields:
  "requests (fst (handleResponseData d s)) = requests s"
  "userInput (fst (handleResponseData d s)) = userInput s"
  "currentAttachment (fst (handleResponseData d s)) = currentAttachment s"
  "sessionId (fst (handleResponseData d s)) = sessionId s"
  "fragment (fst (handleResponseData d s)) = fragment s"
  "chat (fst (handleResponseData d s)) = chat s"
  by (simp_all add: handleResponseData_def displayProducts_fields
        split: option.splits list.splits)

lemma occur_fields:
  "requests (occur e s) = requests s"
  "chat (occur e s) = chat s"
  "sessionId (occur e s) = sessionId s"
  "fragment (occur e s) = fragment s"
  by (cases e; simp add: handleFileUpload_def previewLoaded_def removeAttachment_def
        split: option.splits)+

lemma in_flight_fields:
  "requests (in_flight es s) = requests s"
  "chat (in_flight es s) = chat s"
  "sessionId (in_flight es s) = sessionId s"
  "fragment (in_flight es s) = fragment s"
  unfolding in_flight_def
  by (induction es arbitrary: s; simp add: occur_fields)+

section \<open>Counting typing indicators\<close>

lemma indicators_fetch: "indicators (fetch r s) = indicators s"
  by (simp add: indicators_def fetch_def)

lemma indicators_addMessageToChat: "indicators (addMessageToChat r m s) = indicators s"
  by (simp add: indicators_def addMessageToChat_def Let_def)

lemma indicators_showTypingIndicator: "indicators (showTypingIndicator s) = indicators s + 1"
  by (simp add: indicators_def showTypingIndicator_def)

lemma indicators_removeTypingIndicator_le:
  "indicators (removeTypingIndicator s) \<le> indicators s"
  by (simp add: indicators_def chat_removeTypingIndicator count_remove_id_le)

lemma indicators_console: "indicators (s\<lparr>console := c\<rparr>) = indicators s"
  by (simp add: indicators_def)

lemma indicators_userInput: "indicators (s\<lparr>userInput := t\<rparr>) = indicators s"
  by (simp add: indicators_def)

lemma indicators_in_flight: "indicators (in_flight es s) = indicators s"
  by (simp add: indicators_def in_flight_fields)

lemma indicators_handleResponseData:
  "indicators (fst (handleResponseData d s)) = indicators s"
  by (simp add: indicators_def handleResponseData_fields)

lemma chat_logged: "chat (removeTypingIndicator (s\<lparr>console := c\<rparr>)) = remove_id (chat s)"
  by (simp add: chat_removeTypingIndicator)

lemma indicators_chatFailed: "indicators (chatFailed s) = indicators (removeTypingIndicator s)"
  by (simp add: chatFailed_def indicators_addMessageToChat)
     (simp add: indicators_def chat_removeTypingIndicator)

lemma indicators_fileFailed: "indicators (fileFailed s) = indicators (removeTypingIndicator s)"
  by (simp add: fileFailed_def indicators_addMessageToChat)
     (simp add: indicators_def chat_removeTypingIndicator)

lemma requests_chatFailed: "requests (chatFailed s) = requests s"
  by (simp add: chatFailed_def addMessageToChat_fields removeTypingIndicator_fields)

lemma requests_fileFailed: "requests (fileFailed s) = requests s"
  by (simp add: fileFailed_def addMessageToChat_fields removeTypingIndicator_fields)

text \<open>After its first lookup a settlement never adds an indicator: what follows the
  lookup appends messages, builds cards, or looks the id up again.\<close>

lemma indicators_after_reply:
  "indicators
     (case handleResponseData pl s of (s', None) \<Rightarrow> s' | (s', Some e) \<Rightarrow> chatFailed s') \<le>
   indicators s"
proof (cases "handleResponseData pl s")
  case (Pair s' err)
  have same: "indicators s' = indicators s"
    using indicators_handleResponseData [of pl s] Pair by simp
  show ?thesis
  proof (cases err)
    case None
    with Pair same show ?thesis by simp
  next
    case (Some e)
    have "indicators (chatFailed s') \<le> indicators s'"
      unfolding indicators_chatFailed by (rule indicators_removeTypingIndicator_le)
    with Pair Some same show ?thesis by simp
  qed
qed

lemma indicators_after_file_reply:
  "indicators
     (case handleResponseData pl s of (s', None) \<Rightarrow> s' | (s', Some e) \<Rightarrow> fileFailed s') \<le>
   indicators s"
proof (cases "handleResponseData pl s")
  case (Pair s' err)
  have same: "indicators s' = indicators s"
    using indicators_handleResponseData [of pl s] Pair by simp
  show ?thesis
  proof (cases err)
    case None
    with Pair same show ?thesis by simp
  next
    case (Some e)
    have "indicators (fileFailed s') \<le> indicators s'"
      unfolding indicators_fileFailed by (rule indicators_removeTypingIndicator_le)
    with Pair Some same show ?thesis by simp
  qed
qed

lemma requests_after_reply:
  "requests
     (case handleResponseData pl s of (s', None) \<Rightarrow> s' | (s', Some e) \<Rightarrow> chatFailed s') =
   requests s"
proof (cases "handleResponseData pl s")
  case (Pair s' err)
  have "requests s' = requests s"
    using handleResponseData_fields(1) [of pl s] Pair by simp
  then show ?thesis
    using Pair by (cases err) (simp_all add: requests_chatFailed)
qed

lemma requests_after_file_reply:
  "requests
     (case handleResponseData pl s of (s', None) \<Rightarrow> s' | (s', Some e) \<Rightarrow> fileFailed s') =
   requests s"
proof (cases "handleResponseData pl s")
  case (Pair s' err)
  have "requests s' = requests s"
    using handleResponseData_fields(1) [of pl s] Pair by simp
  then show ?thesis
    using Pair by (cases err) (simp_all add: requests_fileFailed)
qed

lemma indicators_chatSettled_le:
  "indicators (chatSettled r s) \<le> indicators (removeTypingIndicator s)"
proof (cases r)
  case NetworkFailure
  then show ?thesis by (simp add: chatSettled_def indicators_chatFailed)
next
  case (Response ok b)
  show ?thesis
  proof (cases "ok")
    case False
    with Response show ?thesis by (simp add: chatSettled_def indicators_chatFailed)
  next
    case True
    show ?thesis
    proof (cases b)
      case NotJson
      with Response True show ?thesis by (simp add: chatSettled_def indicators_chatFailed)
    next
      case Malformed
      with Response True show ?thesis
        by (simp add: chatSettled_def indicators_chatFailed indicators_removeTypingIndicator_le)
    next
      case (Json d)
      let ?s = "addMessageToChat Bot (formatMessageWithLinks (message d)) (removeTypingIndicator s)"
      have base: "indicators ?s = indicators (removeTypingIndicator s)"
        by (simp add: indicators_addMessageToChat)
      show ?thesis
      proof (cases "data d")
        case None
        with Response True Json base show ?thesis by (simp add: chatSettled_def Let_def)
      next
        case (Some pl)
        have "indicators
                (case handleResponseData pl ?s of (s', None) \<Rightarrow> s' | (s', Some e) \<Rightarrow> chatFailed s')
              \<le> indicators ?s"
          by (rule indicators_after_reply)
        with Response True Json Some base show ?thesis by (simp add: chatSettled_def Let_def)
      qed
    qed
  qed
qed

lemma indicators_fileSettled_le:
  "indicators (fileSettled r s) \<le> indicators (removeTypingIndicator s)"
proof (cases r)
  case NetworkFailure
  then show ?thesis by (simp add: fileSettled_def indicators_fileFailed)
next
  case (Response ok b)
  show ?thesis
  proof (cases "ok")
    case False
    with Response show ?thesis by (simp add: fileSettled_def indicators_fileFailed)
  next
    case True
    show ?thesis
    proof (cases b)
      case NotJson
      with Response True show ?thesis by (simp add: fileSettled_def indicators_fileFailed)
    next
      case Malformed
      with Response True show ?thesis
        by (simp add: fileSettled_def indicators_fileFailed indicators_removeTypingIndicator_le)
    next
      case (Json d)
      let ?s = "addMessageToChat Bot (message d) (removeTypingIndicator s)"
      have base: "indicators ?s = indicators (removeTypingIndicator s)"
        by (simp add: indicators_addMessageToChat)
      show ?thesis
      proof (cases "data d")
        case None
        with Response True Json base show ?thesis by (simp add: fileSettled_def Let_def)
      next
        case (Some pl)
        have "indicators
                (case handleResponseData pl ?s of (s', None) \<Rightarrow> s' | (s', Some e) \<Rightarrow> fileFailed s')
              \<le> indicators ?s"
          by (rule indicators_after_file_reply)
        with Response True Json Some base show ?thesis by (simp add: fileSettled_def Let_def)
      qed
    qed
  qed
qed

lemma requests_chatSettled: "requests (chatSettled r s) = requests s"
proof (cases r)
  case NetworkFailure
  then show ?thesis by (simp add: chatSettled_def requests_chatFailed)
next
  case (Response ok b)
  show ?thesis
  proof (cases b)
    case NotJson
    with Response show ?thesis by (simp add: chatSettled_def requests_chatFailed)
  next
    case Malformed
    with Response show ?thesis
      by (simp add: chatSettled_def requests_chatFailed removeTypingIndicator_fields)
  next
    case (Json d)
    let ?s = "addMessageToChat Bot (formatMessageWithLinks (message d)) (removeTypingIndicator s)"
    have base: "requests ?s = requests s"
      by (simp add: addMessageToChat_fields removeTypingIndicator_fields)
    show ?thesis
    proof (cases "data d")
      case None
      with Response Json base show ?thesis
        by (simp add: chatSettled_def Let_def requests_chatFailed)
    next
      case (Some pl)
      have "requests
              (case handleResponseData pl ?s of (s', None) \<Rightarrow> s' | (s', Some e) \<Rightarrow> chatFailed s')
            = requests ?s"
        by (rule requests_after_reply)
      with Response Json Some base show ?thesis
        by (simp add: chatSettled_def Let_def requests_chatFailed)
    qed
  qed
qed

lemma requests_fileSettled: "requests (fileSettled r s) = requests s"
proof (cases r)
  case NetworkFailure
  then show ?thesis by (simp add: fileSettled_def requests_fileFailed)
next
  case (Response ok b)
  show ?thesis
  proof (cases b)
    case NotJson
    with Response show ?thesis by (simp add: fileSettled_def requests_fileFailed)
  next
    case Malformed
    with Response show ?thesis
      by (simp add: fileSettled_def requests_fileFailed removeTypingIndicator_fields)
  next
    case (Json d)
    let ?s = "addMessageToChat Bot (message d) (removeTypingIndicator s)"
    have base: "requests ?s = requests s"
      by (simp add: addMessageToChat_fields removeTypingIndicator_fields)
    show ?thesis
    proof (cases "data d")
      case None
      with Response Json base show ?thesis
        by (simp add: fileSettled_def Let_def requests_fileFailed)
    next
      case (Some pl)
      have "requests
              (case handleResponseData pl ?s of (s', None) \<Rightarrow> s' | (s', Some e) \<Rightarrow> fileFailed s')
            = requests ?s"
        by (rule requests_after_file_reply)
      with Response Json Some base show ?thesis
        by (simp add: fileSettled_def Let_def requests_fileFailed)
    qed
  qed
qed

section \<open>Sending a text\<close>

lemma sendMessage_text:
  assumes "trim (userInput s) \<noteq> []" "currentAttachment s = None"
  shows "sendMessage s =
           fetch (ChatRequest (trim (userInput s)) (sessionId s))
             (showTypingIndicator ((addMessageToChat User (trim (userInput s)) s)\<lparr>userInput := []\<rparr>))"
  using assms
  by (simp add: sendMessage_def Let_def showTypingIndicator_fields addMessageToChat_fields)

lemma sendMessage_attachment:
  assumes "currentAttachment s = Some f"
  shows "sendMessage s = sendMessageWithAttachment s"
  using assms by (simp add: sendMessage_def)

lemma sendMessageWithAttachment_fields:
  assumes "currentAttachment s = Some f"
  shows "requests (sendMessageWithAttachment s) = requests s"
    and "chat (sendMessageWithAttachment s) = chat s"
    and "\<exists>msg. reads (sendMessageWithAttachment s) = reads s @ [SendRead msg f]"
    and "currentAttachment (sendMessageWithAttachment s) = None"
  using assms by (simp_all add: sendMessageWithAttachment_def Let_def removeAttachment_def)

lemma attachmentLoaded_eq:
  "attachmentLoaded msg url s =
     fetch (FileRequest msg (sessionId s) (currentAttachment s))
       (showTypingIndicator
          (s\<lparr>chat := chat s @ [ImageMessage msg url (fragment s (in_paragraph msg))]\<rparr>))"
  by (simp add: attachmentLoaded_def sendFileToBackend_def Let_def showTypingIndicator_fields)

lemma indicators_image_message:
  "indicators (s\<lparr>chat := chat s @ [ImageMessage msg url ks]\<rparr>) = indicators s"
  by (simp add: indicators_def)

section \<open>The life of a typing indicator\<close>

text \<open>A chat that holds no element with the indicator's id, followed by a message
  whose content holds none, and the indicator: the lookup finds the indicator.\<close>

lemma lookup_finds_indicator:
  assumes "\<not> list_ex holds_id es" "\<not> holds_id m"
  shows "remove_id (es @ [m, Typing]) = es @ [m]"
proof -
  have "\<not> list_ex holds_id (es @ [m])" using assms by simp
  from remove_id_prefix [OF this, of "[Typing]"] show ?thesis by simp
qed

lemma waiting_page:
  assumes "chat s = es @ [m, Typing]" "\<not> list_ex holds_id es" "\<not> holds_id m"
  shows "indicators s = 1" and "indicators (removeTypingIndicator s) = 0"
proof -
  have none: "filter (\<lambda>e. e = Typing) es = []"
    using assms(2) by (rule no_id_no_indicator)
  have m: "m \<noteq> Typing" using assms(3) by auto
  show "indicators s = 1"
    by (simp add: indicators_def assms(1) none m)
  show "indicators (removeTypingIndicator s) = 0"
    by (simp add: indicators_def chat_removeTypingIndicator assms(1)
          lookup_finds_indicator [OF assms(2,3)] none m)
qed

lemma sent_chat:
  assumes "trim (userInput s) \<noteq> []" "currentAttachment s = None"
  shows "chat (in_flight es (sendMessage s)) =
           chat s @ [Message User (line_breaks (trim (userInput s)))
                       (fragment s (in_paragraph (line_breaks (trim (userInput s))))), Typing]"
    and "requests (in_flight es (sendMessage s)) =
           requests s @ [ChatRequest (trim (userInput s)) (sessionId s)]"
  by (simp_all add: in_flight_fields sendMessage_text [OF assms] fetch_fields
        showTypingIndicator_fields addMessageToChat_fields)

lemma text_send_lifecycle:
  assumes "trim (userInput s) \<noteq> []" "currentAttachment s = None"
    and "\<not> list_ex holds_id (chat s)"
    and "\<not> any_id (fragment s (in_paragraph (line_breaks (trim (userInput s)))))"
  shows "(\<exists>s1. sendMessage s = fetch (ChatRequest (trim (userInput s)) (sessionId s)) s1 \<and>
               indicators s1 = 1 \<and> requests s1 = requests s)"
    and "requests (in_flight es (sendMessage s)) =
           requests s @ [ChatRequest (trim (userInput s)) (sessionId s)]"
    and "indicators (in_flight es (sendMessage s)) = 1"
    and "indicators (chatSettled r (in_flight es (sendMessage s))) = 0"
    and "requests (chatSettled r (in_flight es (sendMessage s))) =
           requests s @ [ChatRequest (trim (userInput s)) (sessionId s)]"
proof -
  let ?m = "Message User (line_breaks (trim (userInput s)))
              (fragment s (in_paragraph (line_breaks (trim (userInput s)))))"
  let ?s1 = "showTypingIndicator ((addMessageToChat User (trim (userInput s)) s)\<lparr>userInput := []\<rparr>)"
  have m: "\<not> holds_id ?m" using assms(4) by simp
  have eq: "sendMessage s = fetch (ChatRequest (trim (userInput s)) (sessionId s)) ?s1"
    using assms(1,2) by (rule sendMessage_text)
  have c1: "chat ?s1 = chat s @ [?m, Typing]"
    by (simp add: showTypingIndicator_fields addMessageToChat_fields)
  have one: "indicators ?s1 = 1"
    by (rule waiting_page(1) [OF c1 assms(3) m])
  have req: "requests ?s1 = requests s"
    by (simp add: showTypingIndicator_fields addMessageToChat_fields)
  from eq one req
  show "\<exists>s1. sendMessage s = fetch (ChatRequest (trim (userInput s)) (sessionId s)) s1 \<and>
               indicators s1 = 1 \<and> requests s1 = requests s"
    by blast
  have c: "chat (in_flight es (sendMessage s)) = chat s @ [?m, Typing]"
    by (rule sent_chat(1) [OF assms(1,2)])
  show sent: "requests (in_flight es (sendMessage s)) =
           requests s @ [ChatRequest (trim (userInput s)) (sessionId s)]"
    by (rule sent_chat(2) [OF assms(1,2)])
  show "indicators (in_flight es (sendMessage s)) = 1"
    by (rule waiting_page(1) [OF c assms(3) m])
  have "indicators (removeTypingIndicator (in_flight es (sendMessage s))) = 0"
    by (rule waiting_page(2) [OF c assms(3) m])
  with indicators_chatSettled_le [of r "in_flight es (sendMessage s)"]
  show "indicators (chatSettled r (in_flight es (sendMessage s))) = 0" by simp
  show "requests (chatSettled r (in_flight es (sendMessage s))) =
           requests s @ [ChatRequest (trim (userInput s)) (sessionId s)]"
    by (simp add: requests_chatSettled sent)
qed

lemma attachment_send_waits:
  assumes "currentAttachment s = Some f"
  shows "requests (sendMessage s) = requests s"
    and "chat (sendMessage s) = chat s"
    and "indicators (sendMessage s) = indicators s"
    and "\<exists>msg. reads (sendMessage s) = reads s @ [SendRead msg f]"
  using sendMessageWithAttachment_fields [OF assms]
  by (simp_all add: sendMessage_attachment [OF assms] indicators_def)

lemma loaded_chat:
  "chat (in_flight es (attachmentLoaded msg url s)) =
     chat s @ [ImageMessage msg url (fragment s (in_paragraph msg)), Typing]"
  "requests (in_flight es (attachmentLoaded msg url s)) =
     requests s @ [FileRequest msg (sessionId s) (currentAttachment s)]"
  by (simp_all add: in_flight_fields attachmentLoaded_eq fetch_fields showTypingIndicator_fields)

lemma attachment_loaded_lifecycle:
  assumes "\<not> list_ex holds_id (chat s)" "\<not> any_id (fragment s (in_paragraph msg))"
  shows "(\<exists>s1. attachmentLoaded msg url s =
                 fetch (FileRequest msg (sessionId s) (currentAttachment s)) s1 \<and>
               indicators s1 = 1 \<and> requests s1 = requests s)"
    and "requests (in_flight es (attachmentLoaded msg url s)) =
           requests s @ [FileRequest msg (sessionId s) (currentAttachment s)]"
    and "indicators (in_flight es (attachmentLoaded msg url s)) = 1"
    and "indicators (fileSettled r (in_flight es (attachmentLoaded msg url s))) = 0"
    and "requests (fileSettled r (in_flight es (attachmentLoaded msg url s))) =
           requests s @ [FileRequest msg (sessionId s) (currentAttachment s)]"
proof -
  let ?m = "ImageMessage msg url (fragment s (in_paragraph msg))"
  let ?s1 = "showTypingIndicator (s\<lparr>chat := chat s @ [?m]\<rparr>)"
  have m: "\<not> holds_id ?m" using assms(2) by simp
  have eq: "attachmentLoaded msg url s =
              fetch (FileRequest msg (sessionId s) (currentAttachment s)) ?s1"
    by (rule attachmentLoaded_eq)
  have c1: "chat ?s1 = chat s @ [?m, Typing]"
    by (simp add: showTypingIndicator_fields)
  have one: "indicators ?s1 = 1"
    by (rule waiting_page(1) [OF c1 assms(1) m])
  have req: "requests ?s1 = requests s"
    by (simp add: showTypingIndicator_fields)
  from eq one req
  show "\<exists>s1. attachmentLoaded msg url s =
                 fetch (FileRequest msg (sessionId s) (currentAttachment s)) s1 \<and>
               indicators s1 = 1 \<and> requests s1 = requests s"
    by blast
  have c: "chat (in_flight es (attachmentLoaded msg url s)) = chat s @ [?m, Typing]"
    by (rule loaded_chat(1))
  show sent: "requests (in_flight es (attachmentLoaded msg url s)) =
           requests s @ [FileRequest msg (sessionId s) (currentAttachment s)]"
    by (rule loaded_chat(2))
  show "indicators (in_flight es (attachmentLoaded msg url s)) = 1"
    by (rule waiting_page(1) [OF c assms(1) m])
  have "indicators (removeTypingIndicator (in_flight es (attachmentLoaded msg url s))) = 0"
    by (rule waiting_page(2) [OF c assms(1) m])
  with indicators_fileSettled_le [of r "in_flight es (attachmentLoaded msg url s)"]
  show "indicators (fileSettled r (in_flight es (attachmentLoaded msg url s))) = 0" by simp
  show "requests (fileSettled r (in_flight es (attachmentLoaded msg url s))) =
           requests s @ [FileRequest msg (sessionId s) (currentAttachment s)]"
    by (simp add: requests_fileSettled sent)
qed

text \<open>
  C5 (as the code has it). Take a text submit (the draft does not trim to nothing, no
  attachment is staged) on a page whose chat holds no element with the indicator's id,
  so that it shows no indicator and no earlier message has smuggled the id in, and
  let the markup of the draft hold no such element either. Then exactly one request is
  issued, on a page that already shows exactly one indicator. While the user edits the
  draft, chooses files, has their previews loaded or removes the attachment, in any
  number and order, that one indicator stays and no request is added; and when the
  request then settles, no indicator is left and no further request is issued, on every
  path of the settlement: transport failure, a status that is not ok, a body that
  cannot be read, a reply, and a reply whose handler throws. A submit with a staged
  attachment issues no request, shows no indicator and appends no message by itself: it
  starts the read of the file. When that read completes on a page whose chat holds no
  element with the id, with a message whose markup holds none, the same holds for the
  request to the file endpoint. Nothing is promised when another submit, a clear-chat or
  another settlement comes in between, or when markup carries the indicator's id.
\<close>

theorem send_lifecycle_spec:
  "(trim (userInput s) \<noteq> [] \<and> currentAttachment s = None \<and>
    \<not> list_ex holds_id (chat s) \<and>
    \<not> any_id (fragment s (in_paragraph (line_breaks (trim (userInput s))))) \<longrightarrow>
      (\<exists>s1. sendMessage s = fetch (ChatRequest (trim (userInput s)) (sessionId s)) s1 \<and>
            indicators s1 = 1 \<and> requests s1 = requests s) \<and>
      (\<forall>es.
         requests (in_flight es (sendMessage s)) =
           requests s @ [ChatRequest (trim (userInput s)) (sessionId s)] \<and>
         indicators (in_flight es (sendMessage s)) = 1 \<and>
         (\<forall>r. indicators (chatSettled r (in_flight es (sendMessage s))) = 0 \<and>
              requests (chatSettled r (in_flight es (sendMessage s))) =
                requests s @ [ChatRequest (trim (userInput s)) (sessionId s)]))) \<and>
   (\<forall>f. currentAttachment s = Some f \<longrightarrow>
      requests (sendMessage s) = requests s \<and>
      chat (sendMessage s) = chat s \<and>
      indicators (sendMessage s) = indicators s \<and>
      (\<exists>msg. reads (sendMessage s) = reads s @ [SendRead msg f])) \<and>
   (\<forall>msg url.
      \<not> list_ex holds_id (chat s) \<and> \<not> any_id (fragment s (in_paragraph msg)) \<longrightarrow>
        (\<exists>s1. attachmentLoaded msg url s =
                 fetch (FileRequest msg (sessionId s) (currentAttachment s)) s1 \<and>
               indicators s1 = 1 \<and> requests s1 = requests s) \<and>
        (\<forall>es.
           requests (in_flight es (attachmentLoaded msg url s)) =
             requests s @ [FileRequest msg (sessionId s) (currentAttachment s)] \<and>
           indicators (in_flight es (attachmentLoaded msg url s)) = 1 \<and>
           (\<forall>r. indicators (fileSettled r (in_flight es (attachmentLoaded msg url s))) = 0 \<and>
                requests (fileSettled r (in_flight es (attachmentLoaded msg url s))) =
                  requests s @ [FileRequest msg (sessionId s) (currentAttachment s)])))"
proof (intro conjI impI allI)
  assume h: "trim (userInput s) \<noteq> [] \<and> currentAttachment s = None \<and>
    \<not> list_ex holds_id (chat s) \<and>
    \<not> any_id (fragment s (in_paragraph (line_breaks (trim (userInput s)))))"
  then have a: "trim (userInput s) \<noteq> []" and b: "currentAttachment s = None"
    and c: "\<not> list_ex holds_id (chat s)"
    and d: "\<not> any_id (fragment s (in_paragraph (line_breaks (trim (userInput s)))))"
    by blast+
  show "\<exists>s1. sendMessage s = fetch (ChatRequest (trim (userInput s)) (sessionId s)) s1 \<and>
            indicators s1 = 1 \<and> requests s1 = requests s"
    by (rule text_send_lifecycle(1) [OF a b c d])
  fix es
  show "requests (in_flight es (sendMessage s)) =
           requests s @ [ChatRequest (trim (userInput s)) (sessionId s)]"
    by (rule text_send_lifecycle(2) [OF a b c d])
  show "indicators (in_flight es (sendMessage s)) = 1"
    by (rule text_send_lifecycle(3) [OF a b c d])
  fix r
  show "indicators (chatSettled r (in_flight es (sendMessage s))) = 0"
    by (rule text_send_lifecycle(4) [OF a b c d])
  show "requests (chatSettled r (in_flight es (sendMessage s))) =
           requests s @ [ChatRequest (trim (userInput s)) (sessionId s)]"
    by (rule text_send_lifecycle(5) [OF a b c d])
next
  fix f
  assume f: "currentAttachment s = Some f"
  show "requests (sendMessage s) = requests s"
    by (rule attachment_send_waits(1) [OF f])
  show "chat (sendMessage s) = chat s"
    by (rule attachment_send_waits(2) [OF f])
  show "indicators (sendMessage s) = indicators s"
    by (rule attachment_send_waits(3) [OF f])
  show "\<exists>msg. reads (sendMessage s) = reads s @ [SendRead msg f]"
    by (rule attachment_send_waits(4) [OF f])
next
  fix msg url
  assume h: "\<not> list_ex holds_id (chat s) \<and> \<not> any_id (fragment s (in_paragraph msg))"
  then have c: "\<not> list_ex holds_id (chat s)"
    and d: "\<not> any_id (fragment s (in_paragraph msg))" by blast+
  show "\<exists>s1. attachmentLoaded msg url s =
                 fetch (FileRequest msg (sessionId s) (currentAttachment s)) s1 \<and>
               indicators s1 = 1 \<and> requests s1 = requests s"
    by (rule attachment_loaded_lifecycle(1) [OF c d])
  fix es
  show "requests (in_flight es (attachmentLoaded msg url s)) =
           requests s @ [FileRequest msg (sessionId s) (currentAttachment s)]"
    by (rule attachment_loaded_lifecycle(2) [OF c d])
  show "indicators (in_flight es (attachmentLoaded msg url s)) = 1"
    by (rule attachment_loaded_lifecycle(3) [OF c d])
  fix r
  show "indicators (fileSettled r (in_flight es (attachmentLoaded msg url s))) = 0"
    by (rule attachment_loaded_lifecycle(4) [OF c d])
  show "requests (fileSettled r (in_flight es (attachmentLoaded msg url s))) =
           requests s @ [FileRequest msg (sessionId s) (currentAttachment s)]"
    by (rule attachment_loaded_lifecycle(5) [OF c d])
qed

lemma trim_headphones: "trim ''Show me headphones'' = ''Show me headphones''"
  by (simp add: trim_def is_space_def)

lemma headphones_markup:
  "line_breaks ''Show me headphones'' = ''Show me headphones'' \<and>
   example_fragment (in_paragraph ''Show me headphones'') = []"
  by (simp add: line_breaks_def in_paragraph_def example_fragment_def)

text \<open>The theorem at the specification's example: the text \<^verbatim>\<open>Show me headphones\<close> on a
  fresh page; while the request is in flight the draft is edited and a photo is chosen
  and previewed, and is still staged when the reply arrives; the reply holds a card
  that throws.\<close>

theorem send_lifecycle_spec_witness:
  "trim (userInput typed_page) \<noteq> [] \<and> currentAttachment typed_page = None \<and>
   \<not> list_ex holds_id (chat typed_page) \<and>
   \<not> any_id (fragment typed_page (in_paragraph (line_breaks (trim (userInput typed_page))))) \<and>
   requests (in_flight [Unstaged, Typed ''more'', Chosen (Some photo), Previewed ''data:'']
     (sendMessage typed_page)) = [ChatRequest ''Show me headphones'' ''session_1''] \<and>
   indicators (in_flight [Unstaged, Typed ''more'', Chosen (Some photo), Previewed ''data:'']
     (sendMessage typed_page)) = 1 \<and>
   indicators (chatSettled (Response True (Json bad_reply))
     (in_flight [Unstaged, Typed ''more'', Chosen (Some photo), Previewed ''data:'']
        (sendMessage typed_page))) = 0 \<and>
   requests (chatSettled (Response True (Json bad_reply))
     (in_flight [Unstaged, Typed ''more'', Chosen (Some photo), Previewed ''data:'']
        (sendMessage typed_page))) = [ChatRequest ''Show me headphones'' ''session_1'']"
proof -
  have b: "requests typed_page = []" "sessionId typed_page = ''session_1''"
    "trim (userInput typed_page) = ''Show me headphones''"
    by (simp_all add: typed_page_def fresh_page_def trim_headphones)
  have a: "trim (userInput typed_page) \<noteq> [] \<and> currentAttachment typed_page = None \<and>
           \<not> list_ex holds_id (chat typed_page) \<and>
           \<not> any_id (fragment typed_page
                 (in_paragraph (line_breaks (trim (userInput typed_page)))))"
    unfolding b(3) by (simp add: typed_page_def fresh_page_def headphones_markup)
  from send_lifecycle_spec [of typed_page] a
  have "\<forall>es.
         requests (in_flight es (sendMessage typed_page)) =
           requests typed_page @ [ChatRequest (trim (userInput typed_page)) (sessionId typed_page)] \<and>
         indicators (in_flight es (sendMessage typed_page)) = 1 \<and>
         (\<forall>r. indicators (chatSettled r (in_flight es (sendMessage typed_page))) = 0 \<and>
              requests (chatSettled r (in_flight es (sendMessage typed_page))) =
                requests typed_page @
                  [ChatRequest (trim (userInput typed_page)) (sessionId typed_page)])"
    by blast
  with a b show ?thesis by simp
qed

lemma trim_more: "trim ''more'' = ''more''"
  by (simp add: trim_def is_space_def)

lemma more_markup:
  "line_breaks ''more'' = ''more'' \<and> example_fragment (in_paragraph ''more'') = []"
  by (simp add: line_breaks_def in_paragraph_def example_fragment_def)

lemma sent_page:
  "sendMessage typed_page =
     fresh_page\<lparr>chat := [Message Bot ''Hello!'' [], Message User ''Show me headphones'' [], Typing],
                requests := [ChatRequest ''Show me headphones'' ''session_1'']\<rparr>"
  by (simp add: sendMessage_def typed_page_def fresh_page_def trim_headphones Let_def
        addMessageToChat_def showTypingIndicator_def fetch_def headphones_markup)

lemma sent_twice_page:
  "sendMessage ((sendMessage typed_page)\<lparr>userInput := ''more''\<rparr>) =
     fresh_page\<lparr>chat := [Message Bot ''Hello!'' [], Message User ''Show me headphones'' [], Typing,
                         Message User ''more'' [], Typing],
                requests := [ChatRequest ''Show me headphones'' ''session_1'',
                             ChatRequest ''more'' ''session_1'']\<rparr>"
  unfolding sent_page
  by (simp add: sendMessage_def fresh_page_def trim_more Let_def
        addMessageToChat_def showTypingIndicator_def fetch_def more_markup)

lemma productCard_rating_7: "productCard (speaker\<lparr>rating := Some 7\<rparr>) = Inl RangeError"
  by (simp add: productCard_def Let_def getProductDetails_rating_7)

lemma links_ok: "formatMessageWithLinks ''ok'' = ''ok''"
  by code_simp

lemma plain_markup:
  "line_breaks ''ok'' = ''ok'' \<and> example_fragment (in_paragraph ''ok'') = [] \<and>
   line_breaks apology = apology \<and> example_fragment (in_paragraph apology) = [] \<and>
   line_breaks file_apology = file_apology \<and>
   example_fragment (in_paragraph file_apology) = []"
  by (simp add: line_breaks_def in_paragraph_def example_fragment_def apology_def
        file_apology_def)

lemma bad_reply_settled:
  "indicators (chatSettled (Response True (Json bad_reply))
     (sendMessage ((sendMessage typed_page)\<lparr>userInput := ''more''\<rparr>))) = 0"
  unfolding sent_twice_page
  by (simp add: chatSettled_def bad_reply_def links_ok Let_def
        handleResponseData_def displayProducts_def productCard_rating_7
        removeTypingIndicator_def addMessageToChat_def chatFailed_def indicators_def
        fresh_page_def plain_markup)

lemma cleared_in_flight:
  "indicators (clearChat (sendMessage typed_page)) = 0 \<and>
   requests (clearChat (sendMessage typed_page)) = [ChatRequest ''Show me headphones'' ''session_1'']"
  unfolding sent_page by (simp add: clearChat_def indicators_def fresh_page_def)

lemma trim_marked: "trim ''<i id=typing-indicator></i>'' = ''<i id=typing-indicator></i>''"
  by (simp add: trim_def is_space_def)

lemma marked_markup:
  "line_breaks ''<i id=typing-indicator></i>'' = ''<i id=typing-indicator></i>'' \<and>
   example_fragment (in_paragraph ''<i id=typing-indicator></i>'') = [Mark True False []]"
  by (simp add: line_breaks_def in_paragraph_def example_fragment_def)

text \<open>The draft \<^verbatim>\<open><i id=typing-indicator></i>\<close> goes into the user message as markup, in
  front of the indicator. The lookup of the settlement finds the element of the
  message, removes it, and the indicator stays.\<close>

lemma marked_sent_page:
  "sendMessage marked_page =
     fresh_page\<lparr>chat := [Message Bot ''Hello!'' [],
                         Message User ''<i id=typing-indicator></i>'' [Mark True False []], Typing],
                requests := [ChatRequest ''<i id=typing-indicator></i>'' ''session_1'']\<rparr>"
  by (simp add: sendMessage_def marked_page_def fresh_page_def trim_marked Let_def
        addMessageToChat_def showTypingIndicator_def fetch_def marked_markup)

lemma marked_failed_page:
  "chat (chatSettled NetworkFailure (sendMessage marked_page)) =
     [Message Bot ''Hello!'' [], Message User ''<i id=typing-indicator></i>'' [], Typing,
      Message Bot apology []]"
  unfolding marked_sent_page
  by (simp add: chatSettled_def chatFailed_def removeTypingIndicator_def addMessageToChat_def
        Let_def fresh_page_def plain_markup)

lemma staged_submit:
  "currentAttachment staged_page = Some photo \<and> requests (sendMessage staged_page) = [] \<and>
   indicators (sendMessage staged_page) = 0"
  by (simp add: staged_page_def previewLoaded_def handleFileUpload_def photo_def
        starts_with_def fresh_page_def sendMessage_def sendMessageWithAttachment_def
        removeAttachment_def Let_def indicators_def)

text \<open>
  The claim as stated fails on three executions the script allows. The user clears the
  chat while the request is in flight: the indicator is removed with the messages, so
  it does not stay for the whole flight and the settlement removes none. Two texts are
  submitted one after the other and the first reply's card throws: the handler removes
  one indicator and the \<^verbatim>\<open>catch\<close> handler the other, two removals by one settlement,
  while the second request is still in flight. The draft is the markup
  \<^verbatim>\<open><i id=typing-indicator></i>\<close>: its request is issued with one indicator showing, and
  the settlement removes the element of the message and leaves the indicator.
\<close>

theorem send_lifecycle_counterexample:
  "indicators (sendMessage typed_page) = 1 \<and>
   requests (clearChat (sendMessage typed_page)) = [ChatRequest ''Show me headphones'' ''session_1''] \<and>
   indicators (clearChat (sendMessage typed_page)) = 0 \<and>
   indicators (chatSettled NetworkFailure (clearChat (sendMessage typed_page))) =
     indicators (clearChat (sendMessage typed_page)) \<and>
   indicators (sendMessage ((sendMessage typed_page)\<lparr>userInput := ''more''\<rparr>)) = 2 \<and>
   length (requests (sendMessage ((sendMessage typed_page)\<lparr>userInput := ''more''\<rparr>))) = 2 \<and>
   indicators (chatSettled (Response True (Json bad_reply))
     (sendMessage ((sendMessage typed_page)\<lparr>userInput := ''more''\<rparr>))) = 0 \<and>
   trim (userInput marked_page) \<noteq> [] \<and> currentAttachment marked_page = None \<and>
   indicators marked_page = 0 \<and>
   requests (sendMessage marked_page) = [ChatRequest ''<i id=typing-indicator></i>'' ''session_1''] \<and>
   indicators (sendMessage marked_page) = 1 \<and>
   indicators (chatSettled NetworkFailure (sendMessage marked_page)) = 1"
proof -
  have a: "indicators (sendMessage typed_page) = 1"
    unfolding sent_page by (simp add: indicators_def fresh_page_def)
  have b: "indicators (sendMessage ((sendMessage typed_page)\<lparr>userInput := ''more''\<rparr>)) = 2"
    unfolding sent_twice_page by (simp add: indicators_def fresh_page_def)
  have c: "length (requests (sendMessage ((sendMessage typed_page)\<lparr>userInput := ''more''\<rparr>))) = 2"
    unfolding sent_twice_page by simp
  have "indicators (chatSettled NetworkFailure (clearChat (sendMessage typed_page))) \<le>
        indicators (clearChat (sendMessage typed_page))"
    using indicators_chatSettled_le [of NetworkFailure "clearChat (sendMessage typed_page)"]
      indicators_removeTypingIndicator_le [of "clearChat (sendMessage typed_page)"]
    by simp
  with cleared_in_flight
  have d: "indicators (chatSettled NetworkFailure (clearChat (sendMessage typed_page))) = 0"
    by simp
  have e: "trim (userInput marked_page) \<noteq> [] \<and> currentAttachment marked_page = None \<and>
           indicators marked_page = 0"
    by (simp add: marked_page_def fresh_page_def trim_marked indicators_def)
  have f: "requests (sendMessage marked_page) =
             [ChatRequest ''<i id=typing-indicator></i>'' ''session_1''] \<and>
           indicators (sendMessage marked_page) = 1"
    unfolding marked_sent_page by (simp add: indicators_def fresh_page_def)
  have g: "indicators (chatSettled NetworkFailure (sendMessage marked_page)) = 1"
    by (simp add: indicators_def marked_failed_page)
  from a b c d e f g cleared_in_flight bad_reply_settled show ?thesis by simp
qed

text \<open>A submit with a staged attachment issues no request and shows no indicator by
  itself; and when its read completes, the request carries no file, because the
  attachment variable was cleared right after the read was started.\<close>

lemma staged_send_has_no_file:
  "requests (attachmentLoaded ''Look'' ''data:image/png;base64,AAAA'' (sendMessage staged_page)) =
     [FileRequest ''Look'' ''session_1'' None]"
  by (simp add: staged_page_def previewLoaded_def handleFileUpload_def photo_def
        starts_with_def fresh_page_def sendMessage_def sendMessageWithAttachment_def
        removeAttachment_def Let_def attachmentLoaded_def sendFileToBackend_def
        showTypingIndicator_def fetch_def)

section \<open>Failed sends\<close>

lemma apology_markup:
  "line_breaks apology = apology"
  "line_breaks file_apology = file_apology"
  by (simp_all add: line_breaks_def apology_def file_apology_def)

lemma chatFailed_fields:
  "chat (chatFailed s) =
     remove_id (chat s) @ [Message Bot apology (fragment s (in_paragraph apology))]"
  "userInput (chatFailed s) = userInput s"
  "currentAttachment (chatFailed s) = currentAttachment s"
  "sessionId (chatFailed s) = sessionId s"
  by (simp_all add: chatFailed_def addMessageToChat_fields removeTypingIndicator_fields
        chat_removeTypingIndicator apology_markup)

lemma fileFailed_fields:
  "chat (fileFailed s) =
     remove_id (chat s) @ [Message Bot file_apology (fragment s (in_paragraph file_apology))]"
  "userInput (fileFailed s) = userInput s"
  "currentAttachment (fileFailed s) = currentAttachment s"
  "sessionId (fileFailed s) = sessionId s"
  by (simp_all add: fileFailed_def addMessageToChat_fields removeTypingIndicator_fields
        chat_removeTypingIndicator apology_markup)

lemma failed_settles:
  assumes "failed r"
  shows "chatSettled r s = chatFailed s" and "fileSettled r s = fileFailed s"
  using assms by (cases r; simp add: chatSettled_def fileSettled_def)+

text \<open>When the messages in front of the first indicator hold no element with its id,
  the lookup finds that indicator; one indicator at most, and none is left.\<close>

lemma failure_clears:
  assumes "indicators s \<le> 1"
    and "\<not> list_ex holds_id (takeWhile (\<lambda>e. e \<noteq> Typing) (chat s))"
  shows "indicators (chatFailed s) = 0" and "indicators (fileFailed s) = 0"
proof -
  have "indicators (removeTypingIndicator s) = indicators s - 1"
    using assms(2) by (simp add: indicators_def chat_removeTypingIndicator count_remove_id)
  with assms(1) have "indicators (removeTypingIndicator s) = 0" by simp
  then show "indicators (chatFailed s) = 0" and "indicators (fileFailed s) = 0"
    by (simp_all add: indicators_chatFailed indicators_fileFailed)
qed

lemma failure_removes_indicator:
  assumes "chat s = pre @ Typing # post" "\<not> list_ex holds_id pre"
  shows "chat (chatFailed s) =
           pre @ post @ [Message Bot apology (fragment s (in_paragraph apology))]"
    and "chat (fileFailed s) =
           pre @ post @ [Message Bot file_apology (fragment s (in_paragraph file_apology))]"
  using remove_id_prefix [OF assms(2), of "Typing # post"]
  by (simp_all add: chatFailed_fields fileFailed_fields assms(1))

lemma next_send_after_failure:
  assumes "trim t \<noteq> []" "currentAttachment s = None"
  shows "requests (sendMessage ((chatFailed s)\<lparr>userInput := t\<rparr>)) =
           requests s @ [ChatRequest (trim t) (sessionId s)]"
    and "requests (sendMessage ((fileFailed s)\<lparr>userInput := t\<rparr>)) =
           requests s @ [ChatRequest (trim t) (sessionId s)]"
proof -
  have a: "trim (userInput ((chatFailed s)\<lparr>userInput := t\<rparr>)) \<noteq> []"
    "currentAttachment ((chatFailed s)\<lparr>userInput := t\<rparr>) = None"
    using assms by (simp_all add: chatFailed_fields)
  have b: "trim (userInput ((fileFailed s)\<lparr>userInput := t\<rparr>)) \<noteq> []"
    "currentAttachment ((fileFailed s)\<lparr>userInput := t\<rparr>) = None"
    using assms by (simp_all add: fileFailed_fields)
  show "requests (sendMessage ((chatFailed s)\<lparr>userInput := t\<rparr>)) =
           requests s @ [ChatRequest (trim t) (sessionId s)]"
    by (simp add: sendMessage_text [OF a] fetch_fields showTypingIndicator_fields
          addMessageToChat_fields requests_chatFailed chatFailed_fields)
  show "requests (sendMessage ((fileFailed s)\<lparr>userInput := t\<rparr>)) =
           requests s @ [ChatRequest (trim t) (sessionId s)]"
    by (simp add: sendMessage_text [OF b] fetch_fields showTypingIndicator_fields
          addMessageToChat_fields requests_fileFailed fileFailed_fields)
qed

text \<open>
  C6 (as the code has it). When a send fails with a transport failure or a status that
  is not a success, the first element of the chat with the indicator's id is removed
  and one fixed apology is appended as a bot message: the text path appends
  \<^verbatim>\<open>Sorry, I encountered an error. Please try again.\<close>, the attachment path
  \<^verbatim>\<open>Sorry, I encountered an error processing your file. Please try again.\<close> When the
  messages in front of the first indicator hold no element with its id, that element is
  the indicator: it is removed and the rest of the chat is left as it was, so that no
  indicator is left when at most one was showing. The draft, the attachment slot and
  the request log are left as they were, and the next text submit issues its request.
\<close>

theorem failed_send_spec:
  "failed r \<longrightarrow>
     chatSettled r s = chatFailed s \<and> fileSettled r s = fileFailed s \<and>
     chat (chatSettled r s) =
       remove_id (chat s) @ [Message Bot apology (fragment s (in_paragraph apology))] \<and>
     chat (fileSettled r s) =
       remove_id (chat s) @
         [Message Bot file_apology (fragment s (in_paragraph file_apology))] \<and>
     (\<forall>pre post. chat s = pre @ Typing # post \<and> \<not> list_ex holds_id pre \<longrightarrow>
        chat (chatSettled r s) =
          pre @ post @ [Message Bot apology (fragment s (in_paragraph apology))] \<and>
        chat (fileSettled r s) =
          pre @ post @ [Message Bot file_apology (fragment s (in_paragraph file_apology))]) \<and>
     (indicators s \<le> 1 \<and>
      \<not> list_ex holds_id (takeWhile (\<lambda>e. e \<noteq> Typing) (chat s)) \<longrightarrow>
        indicators (chatSettled r s) = 0 \<and> indicators (fileSettled r s) = 0) \<and>
     userInput (chatSettled r s) = userInput s \<and>
     userInput (fileSettled r s) = userInput s \<and>
     currentAttachment (chatSettled r s) = currentAttachment s \<and>
     currentAttachment (fileSettled r s) = currentAttachment s \<and>
     requests (chatSettled r s) = requests s \<and>
     requests (fileSettled r s) = requests s \<and>
     (\<forall>t. trim t \<noteq> [] \<and> currentAttachment s = None \<longrightarrow>
        requests (sendMessage ((chatSettled r s)\<lparr>userInput := t\<rparr>)) =
          requests s @ [ChatRequest (trim t) (sessionId s)] \<and>
        requests (sendMessage ((fileSettled r s)\<lparr>userInput := t\<rparr>)) =
          requests s @ [ChatRequest (trim t) (sessionId s)])"
proof
  assume f: "failed r"
  note eqs = failed_settles [OF f]
  have rem: "\<forall>pre post. chat s = pre @ Typing # post \<and> \<not> list_ex holds_id pre \<longrightarrow>
        chat (chatSettled r s) =
          pre @ post @ [Message Bot apology (fragment s (in_paragraph apology))] \<and>
        chat (fileSettled r s) =
          pre @ post @ [Message Bot file_apology (fragment s (in_paragraph file_apology))]"
    unfolding eqs by (blast intro: failure_removes_indicator)
  have ind: "indicators s \<le> 1 \<and>
      \<not> list_ex holds_id (takeWhile (\<lambda>e. e \<noteq> Typing) (chat s)) \<longrightarrow>
        indicators (chatSettled r s) = 0 \<and> indicators (fileSettled r s) = 0"
    unfolding eqs by (blast intro: failure_clears)
  have nxt: "\<forall>t. trim t \<noteq> [] \<and> currentAttachment s = None \<longrightarrow>
        requests (sendMessage ((chatSettled r s)\<lparr>userInput := t\<rparr>)) =
          requests s @ [ChatRequest (trim t) (sessionId s)] \<and>
        requests (sendMessage ((fileSettled r s)\<lparr>userInput := t\<rparr>)) =
          requests s @ [ChatRequest (trim t) (sessionId s)]"
    unfolding eqs by (blast intro: next_send_after_failure)
  have rest: "chatSettled r s = chatFailed s \<and> fileSettled r s = fileFailed s \<and>
     chat (chatSettled r s) =
       remove_id (chat s) @ [Message Bot apology (fragment s (in_paragraph apology))] \<and>
     chat (fileSettled r s) =
       remove_id (chat s) @
         [Message Bot file_apology (fragment s (in_paragraph file_apology))] \<and>
     userInput (chatSettled r s) = userInput s \<and>
     userInput (fileSettled r s) = userInput s \<and>
     currentAttachment (chatSettled r s) = currentAttachment s \<and>
     currentAttachment (fileSettled r s) = currentAttachment s \<and>
     requests (chatSettled r s) = requests s \<and>
     requests (fileSettled r s) = requests s"
    by (simp add: eqs chatFailed_fields fileFailed_fields requests_chatFailed
          requests_fileFailed)
  from rest rem ind nxt
  show "chatSettled r s = chatFailed s \<and> fileSettled r s = fileFailed s \<and>
     chat (chatSettled r s) =
       remove_id (chat s) @ [Message Bot apology (fragment s (in_paragraph apology))] \<and>
     chat (fileSettled r s) =
       remove_id (chat s) @
         [Message Bot file_apology (fragment s (in_paragraph file_apology))] \<and>
     (\<forall>pre post. chat s = pre @ Typing # post \<and> \<not> list_ex holds_id pre \<longrightarrow>
        chat (chatSettled r s) =
          pre @ post @ [Message Bot apology (fragment s (in_paragraph apology))] \<and>
        chat (fileSettled r s) =
          pre @ post @ [Message Bot file_apology (fragment s (in_paragraph file_apology))]) \<and>
     (indicators s \<le> 1 \<and>
      \<not> list_ex holds_id (takeWhile (\<lambda>e. e \<noteq> Typing) (chat s)) \<longrightarrow>
        indicators (chatSettled r s) = 0 \<and> indicators (fileSettled r s) = 0) \<and>
     userInput (chatSettled r s) = userInput s \<and>
     userInput (fileSettled r s) = userInput s \<and>
     currentAttachment (chatSettled r s) = currentAttachment s \<and>
     currentAttachment (fileSettled r s) = currentAttachment s \<and>
     requests (chatSettled r s) = requests s \<and>
     requests (fileSettled r s) = requests s \<and>
     (\<forall>t. trim t \<noteq> [] \<and> currentAttachment s = None \<longrightarrow>
        requests (sendMessage ((chatSettled r s)\<lparr>userInput := t\<rparr>)) =
          requests s @ [ChatRequest (trim t) (sessionId s)] \<and>
        requests (sendMessage ((fileSettled r s)\<lparr>userInput := t\<rparr>)) =
          requests s @ [ChatRequest (trim t) (sessionId s)])"
    by blast
qed

text \<open>The theorem at a status that is not ok, on the page that waits for the reply to
  \<^verbatim>\<open>Show me headphones\<close>: the indicator is removed, the apology appended, and a next
  draft is sent.\<close>

theorem failed_send_spec_witness:
  "failed (Response False NotJson) \<and>
   chat (sendMessage typed_page) =
     [Message Bot ''Hello!'' [], Message User ''Show me headphones'' []] @ Typing # [] \<and>
   \<not> list_ex holds_id [Message Bot ''Hello!'' [], Message User ''Show me headphones'' []] \<and>
   indicators (sendMessage typed_page) \<le> 1 \<and>
   chat (chatSettled (Response False NotJson) (sendMessage typed_page)) =
     [Message Bot ''Hello!'' [], Message User ''Show me headphones'' [],
      Message Bot apology []] \<and>
   indicators (chatSettled (Response False NotJson) (sendMessage typed_page)) = 0 \<and>
   requests (sendMessage ((chatSettled (Response False NotJson) (sendMessage typed_page))
      \<lparr>userInput := ''more''\<rparr>)) =
     [ChatRequest ''Show me headphones'' ''session_1'', ChatRequest ''more'' ''session_1'']"
proof -
  have f: "failed (Response False NotJson)" by simp
  have c: "chat (sendMessage typed_page) =
             [Message Bot ''Hello!'' [], Message User ''Show me headphones'' []] @ Typing # []"
    unfolding sent_page by (simp add: fresh_page_def)
  have p: "\<not> list_ex holds_id [Message Bot ''Hello!'' [], Message User ''Show me headphones'' []]"
    by simp
  have one: "indicators (sendMessage typed_page) \<le> 1"
    unfolding sent_page by (simp add: indicators_def fresh_page_def)
  have q: "\<not> list_ex holds_id (takeWhile (\<lambda>e. e \<noteq> Typing) (chat (sendMessage typed_page)))"
    unfolding sent_page by (simp add: fresh_page_def)
  have t: "trim ''more'' \<noteq> [] \<and> currentAttachment (sendMessage typed_page) = None"
    unfolding sent_page by (simp add: trim_more fresh_page_def)
  have v: "requests (sendMessage typed_page) = [ChatRequest ''Show me headphones'' ''session_1'']"
    "sessionId (sendMessage typed_page) = ''session_1''"
    "fragment (sendMessage typed_page) (in_paragraph apology) = []"
    unfolding sent_page by (simp_all add: fresh_page_def plain_markup)
  note spec = failed_send_spec [of "Response False NotJson" "sendMessage typed_page"]
  from spec f c p
  have "chat (chatSettled (Response False NotJson) (sendMessage typed_page)) =
          [Message Bot ''Hello!'' [], Message User ''Show me headphones'' []] @ [] @
          [Message Bot apology (fragment (sendMessage typed_page) (in_paragraph apology))]"
    by blast
  moreover from spec f one q
  have "indicators (chatSettled (Response False NotJson) (sendMessage typed_page)) = 0"
    by blast
  moreover from spec f t
  have "requests (sendMessage ((chatSettled (Response False NotJson) (sendMessage typed_page))
            \<lparr>userInput := ''more''\<rparr>)) =
          requests (sendMessage typed_page) @
            [ChatRequest (trim ''more'') (sessionId (sendMessage typed_page))]"
    by blast
  ultimately show ?thesis using f c p one by (simp add: v trim_more)
qed

lemma staged_failed_page:
  "last (chat (fileSettled NetworkFailure
           (attachmentLoaded ''Look'' ''data:image/png;base64,AAAA'' (sendMessage staged_page)))) =
     Message Bot file_apology []"
  by (simp add: fileSettled_def fileFailed_fields)
     (simp add: staged_page_def previewLoaded_def handleFileUpload_def photo_def
        starts_with_def fresh_page_def sendMessage_def sendMessageWithAttachment_def
        removeAttachment_def Let_def attachmentLoaded_def sendFileToBackend_def
        showTypingIndicator_def fetch_def plain_markup)

text \<open>
  The claim as stated has one apology for both paths, and the indicator cleared by
  every failure. On the same transport failure the two paths append different texts.
  And with the draft \<^verbatim>\<open><i id=typing-indicator></i>\<close> the failure of its request removes
  the element of the user message and leaves the indicator in the chat.
\<close>

theorem failed_send_apology_counterexample:
  "failed NetworkFailure \<and>
   last (chat (chatSettled NetworkFailure (sendMessage typed_page))) =
     Message Bot ''Sorry, I encountered an error. Please try again.'' [] \<and>
   last (chat (fileSettled NetworkFailure
           (attachmentLoaded ''Look'' ''data:image/png;base64,AAAA'' (sendMessage staged_page)))) =
     Message Bot ''Sorry, I encountered an error processing your file. Please try again.'' [] \<and>
   last (chat (chatSettled NetworkFailure (sendMessage typed_page))) \<noteq>
     last (chat (fileSettled NetworkFailure
             (attachmentLoaded ''Look'' ''data:image/png;base64,AAAA'' (sendMessage staged_page)))) \<and>
   indicators (sendMessage marked_page) = 1 \<and>
   chat (chatSettled NetworkFailure (sendMessage marked_page)) =
     [Message Bot ''Hello!'' [], Message User ''<i id=typing-indicator></i>'' [], Typing,
      Message Bot ''Sorry, I encountered an error. Please try again.'' []] \<and>
   indicators (chatSettled NetworkFailure (sendMessage marked_page)) = 1"
proof -
  have a: "last (chat (chatSettled NetworkFailure (sendMessage typed_page))) =
             Message Bot apology []"
    unfolding sent_page
    by (simp add: chatSettled_def chatFailed_fields fresh_page_def plain_markup)
  have b: "indicators (sendMessage marked_page) = 1"
    unfolding marked_sent_page by (simp add: indicators_def fresh_page_def)
  have c: "indicators (chatSettled NetworkFailure (sendMessage marked_page)) = 1"
    by (simp add: indicators_def marked_failed_page)
  from a b c staged_failed_page marked_failed_page show ?thesis
    by (simp add: apology_def file_apology_def)
qed

section \<open>Rejected attachments\<close>

text \<open>
  C8 (as the code has it). For every file whose type does not start with
  \<^verbatim>\<open>image/\<close>, \<^verbatim>\<open>handleFileUpload\<close> shows the notice at once, clears the value of the file
  input and changes nothing else: the attachment slot, the two previews, the draft and
  the started reads are as before. The slot is unset afterwards exactly when it was
  unset before.
\<close>

theorem handleFileUpload_rejects_spec:
  "\<not> starts_with ''image/'' (file_type f) \<longrightarrow>
     handleFileUpload (Some f) s = s\<lparr>alerts := alerts s @ [unsupported_notice], fileUpload := []\<rparr> \<and>
     currentAttachment (handleFileUpload (Some f) s) = currentAttachment s \<and>
     file_preview_hidden (handleFileUpload (Some f) s) = file_preview_hidden s \<and>
     image_preview_hidden (handleFileUpload (Some f) s) = image_preview_hidden s \<and>
     image_preview_src (handleFileUpload (Some f) s) = image_preview_src s \<and>
     userInput (handleFileUpload (Some f) s) = userInput s \<and>
     reads (handleFileUpload (Some f) s) = reads s \<and>
     requests (handleFileUpload (Some f) s) = requests s \<and>
     chat (handleFileUpload (Some f) s) = chat s \<and>
     ((currentAttachment (handleFileUpload (Some f) s) = None) = (currentAttachment s = None))"
  by (simp add: handleFileUpload_def)

text \<open>The theorem at a PDF chosen on a fresh page: the notice, and no attachment.\<close>

theorem handleFileUpload_rejects_spec_witness:
  "\<not> starts_with ''image/'' (file_type invoice) \<and>
   alerts (handleFileUpload (Some invoice) fresh_page) = [unsupported_notice] \<and>
   currentAttachment (handleFileUpload (Some invoice) fresh_page) = None \<and>
   file_preview_hidden (handleFileUpload (Some invoice) fresh_page)"
proof -
  have a: "\<not> starts_with ''image/'' (file_type invoice)"
    by (simp add: starts_with_def invoice_def)
  from handleFileUpload_rejects_spec [of invoice fresh_page] a
  have "handleFileUpload (Some invoice) fresh_page =
          fresh_page\<lparr>alerts := alerts fresh_page @ [unsupported_notice], fileUpload := []\<rparr>"
    by blast
  with a show ?thesis by (simp add: fresh_page_def)
qed

text \<open>
  The claim as stated has the slot unset and no preview shown after the rejection, for
  every prior state. With a photo already staged, the rejected PDF leaves the photo in
  the slot and both previews showing.
\<close>

theorem handleFileUpload_staged_counterexample:
  "\<not> starts_with ''image/'' (file_type invoice) \<and>
   currentAttachment (handleFileUpload (Some invoice) staged_page) = Some photo \<and>
   \<not> file_preview_hidden (handleFileUpload (Some invoice) staged_page) \<and>
   \<not> image_preview_hidden (handleFileUpload (Some invoice) staged_page)"
  by (simp add: handleFileUpload_def starts_with_def invoice_def photo_def staged_page_def
        previewLoaded_def)

section \<open>The empty submit\<close>

text \<open>
  C10. When the draft trims to the empty string and no attachment is staged,
  \<^verbatim>\<open>sendMessage\<close> changes nothing: no request is issued, no message is appended, no
  typing indicator is created, and the draft is left as it was.
\<close>

theorem sendMessage_empty_spec:
  "trim (userInput s) = [] \<and> currentAttachment s = None \<longrightarrow>
     sendMessage s = s \<and>
     requests (sendMessage s) = requests s \<and>
     chat (sendMessage s) = chat s \<and>
     indicators (sendMessage s) = indicators s \<and>
     userInput (sendMessage s) = userInput s"
  by (simp add: sendMessage_def)

text \<open>The theorem at a draft of two blanks on the fresh page.\<close>

theorem sendMessage_empty_spec_witness:
  "trim (userInput (fresh_page\<lparr>userInput := ''  ''\<rparr>)) = [] \<and>
   currentAttachment (fresh_page\<lparr>userInput := ''  ''\<rparr>) = None \<and>
   sendMessage (fresh_page\<lparr>userInput := ''  ''\<rparr>) = fresh_page\<lparr>userInput := ''  ''\<rparr> \<and>
   userInput (sendMessage (fresh_page\<lparr>userInput := ''  ''\<rparr>)) = ''  '' \<and>
   requests (sendMessage (fresh_page\<lparr>userInput := ''  ''\<rparr>)) = []"
proof -
  have a: "trim (userInput (fresh_page\<lparr>userInput := ''  ''\<rparr>)) = [] \<and>
           currentAttachment (fresh_page\<lparr>userInput := ''  ''\<rparr>) = None"
    by (simp add: trim_def is_space_def fresh_page_def)
  from sendMessage_empty_spec [of "fresh_page\<lparr>userInput := ''  ''\<rparr>"] a
  have "sendMessage (fresh_page\<lparr>userInput := ''  ''\<rparr>) = fresh_page\<lparr>userInput := ''  ''\<rparr>"
    by blast
  with a show ?thesis by (simp add: fresh_page_def)
qed

section \<open>Linking twice\<close>

lemma linked_once:
  \<open>formatMessageWithLinks ''"phone"'' =
     ''"<a href="https://www.amazon.com/s?k=phone" target="_blank" class="product-link">phone</a>"''\<close>
  by code_simp

lemma linked_again:
  \<open>formatMessageWithLinks
     ''"<a href="https://www.amazon.com/s?k=phone" target="_blank" class="product-link">phone</a>"'' =
     ''"<a href="https://www.amazon.com/s?k=phone" target="_blank" class="product-link"<a href="https://www.amazon.com/s?k=%3Ephone%3C%2Fa%3E" target="_blank" class="product-link">>phone</a></a>"''\<close>
  by code_simp

lemma linked_inside_link:
  \<open>formatMessageWithLinks ''"phone device"'' =
     ''"<a href="https://www.amazon.com/s?k=phone%20device" target="_blank" class="product-link"><a href="https://www.amazon.com/s?k=phone" target="_blank" class="product-link">phone</a> device</a>"''\<close>
  by code_simp

text \<open>
  C7 (the code at the failing inputs). The claim has the linkifier give the same text
  when it is applied to its own output, and has the second pass leave alone what the
  first pass linked. For \<^verbatim>\<open>"phone"\<close> (both quotes matched) the first application
  links the word; in its output the quote that closes the \<^verbatim>\<open>class\<close> attribute and the
  closing quote of the input enclose a span that holds the keyword, so the second
  application links that span too, and the two results differ. For
  \<^verbatim>\<open>"phone device"\<close> one application is enough: the second pass finds \<^verbatim>\<open>phone\<close>
  before \<^verbatim>\<open>device\<close> inside the link of the first pass and puts a link into it.
\<close>

theorem formatMessageWithLinks_rewraps:
  \<open>formatMessageWithLinks ''"phone"'' =
     ''"<a href="https://www.amazon.com/s?k=phone" target="_blank" class="product-link">phone</a>"'' \<and>
   formatMessageWithLinks (formatMessageWithLinks ''"phone"'') =
     ''"<a href="https://www.amazon.com/s?k=phone" target="_blank" class="product-link"<a href="https://www.amazon.com/s?k=%3Ephone%3C%2Fa%3E" target="_blank" class="product-link">>phone</a></a>"'' \<and>
   formatMessageWithLinks (formatMessageWithLinks ''"phone"'') \<noteq> formatMessageWithLinks ''"phone"'' \<and>
   formatMessageWithLinks ''"phone device"'' =
     ''"<a href="https://www.amazon.com/s?k=phone%20device" target="_blank" class="product-link"><a href="https://www.amazon.com/s?k=phone" target="_blank" class="product-link">phone</a> device</a>"''\<close>
proof -
  have twice: \<open>formatMessageWithLinks (formatMessageWithLinks ''"phone"'') =
     ''"<a href="https://www.amazon.com/s?k=phone" target="_blank" class="product-link"<a href="https://www.amazon.com/s?k=%3Ephone%3C%2Fa%3E" target="_blank" class="product-link">>phone</a></a>"''\<close>
    by (simp only: linked_once linked_again)
  have differ: \<open>formatMessageWithLinks (formatMessageWithLinks ''"phone"'') \<noteq>
                 formatMessageWithLinks ''"phone"''\<close>
  proof
    assume same: \<open>formatMessageWithLinks (formatMessageWithLinks ''"phone"'') =
                   formatMessageWithLinks ''"phone"''\<close>
    note twice [symmetric]
    also note same
    also note linked_once
    finally show False by simp
  qed
  from linked_once twice differ linked_inside_link show ?thesis by blast
qed

text \<open>Where no quoted span holds a keyword and no product noun follows a phrase, the
  text is left as it is.\<close>

lemma formatMessageWithLinks_plain:
  "formatMessageWithLinks ''Hello, how can I help?'' = ''Hello, how can I help?''"
  by code_simp

end
